theory Spec2Isabelle
  imports Complex_Main
begin

section \<open>Data model\<close>

text \<open>
  The application keeps one mutable object \<^verbatim>\<open>appState\<close> (src/unnamed/part_000, lines 1-30).
  It is modelled as a record that every operation takes and returns. JavaScript
  \<^verbatim>\<open>null\<close>/\<^verbatim>\<open>undefined\<close> is \<open>None\<close>; a number that is an index, a score or a
  counter is an \<open>int\<close>; a tactics number is a \<open>real\<close>. Fields that only the presentation
  layer reads (rosters, chat history, first-message flags, the postseason snapshot) are
  left out.
\<close>

type_synonym team_id = string

text \<open>An opaque JSON payload of an ancillary endpoint, kept as its text.\<close>
type_synonym json = string

text \<open>
  An entry of \<^verbatim>\<open>TEAMS\<close> (src/unnamed/part_000, lines 33-64) with its id and name; the
  field \<^verbatim>\<open>id\<close> is called \<open>ident\<close> here. The entries' \<^verbatim>\<open>cap\<close>, \<^verbatim>\<open>overall\<close> and
  \<^verbatim>\<open>difficulty\<close> are shown on the team screen only.
\<close>
record team =
  ident :: team_id
  name :: string

definition TEAMS :: "team list" where
  "TEAMS =
    [\<lparr>ident = ''ATL'', name = ''Atlanta Hawks''\<rparr>,
     \<lparr>ident = ''BOS'', name = ''Boston Celtics''\<rparr>,
     \<lparr>ident = ''BKN'', name = ''Brooklyn Nets''\<rparr>,
     \<lparr>ident = ''CHA'', name = ''Charlotte Hornets''\<rparr>,
     \<lparr>ident = ''CHI'', name = ''Chicago Bulls''\<rparr>,
     \<lparr>ident = ''CLE'', name = ''Cleveland Cavaliers''\<rparr>,
     \<lparr>ident = ''DAL'', name = ''Dallas Mavericks''\<rparr>,
     \<lparr>ident = ''DEN'', name = ''Denver Nuggets''\<rparr>,
     \<lparr>ident = ''DET'', name = ''Detroit Pistons''\<rparr>,
     \<lparr>ident = ''GSW'', name = ''Golden State Warriors''\<rparr>,
     \<lparr>ident = ''HOU'', name = ''Houston Rockets''\<rparr>,
     \<lparr>ident = ''IND'', name = ''Indiana Pacers''\<rparr>,
     \<lparr>ident = ''LAC'', name = ''LA Clippers''\<rparr>,
     \<lparr>ident = ''LAL'', name = ''Los Angeles Lakers''\<rparr>,
     \<lparr>ident = ''MEM'', name = ''Memphis Grizzlies''\<rparr>,
     \<lparr>ident = ''MIA'', name = ''Miami Heat''\<rparr>,
     \<lparr>ident = ''MIL'', name = ''Milwaukee Bucks''\<rparr>,
     \<lparr>ident = ''MIN'', name = ''Minnesota Timberwolves''\<rparr>,
     \<lparr>ident = ''NOP'', name = ''New Orleans Pelicans''\<rparr>,
     \<lparr>ident = ''NYK'', name = ''New York Knicks''\<rparr>,
     \<lparr>ident = ''OKC'', name = ''Oklahoma City Thunder''\<rparr>,
     \<lparr>ident = ''ORL'', name = ''Orlando Magic''\<rparr>,
     \<lparr>ident = ''PHI'', name = ''Philadelphia 76ers''\<rparr>,
     \<lparr>ident = ''PHX'', name = ''Phoenix Suns''\<rparr>,
     \<lparr>ident = ''POR'', name = ''Portland Trail Blazers''\<rparr>,
     \<lparr>ident = ''SAC'', name = ''Sacramento Kings''\<rparr>,
     \<lparr>ident = ''SAS'', name = ''San Antonio Spurs''\<rparr>,
     \<lparr>ident = ''TOR'', name = ''Toronto Raptors''\<rparr>,
     \<lparr>ident = ''UTA'', name = ''Utah Jazz''\<rparr>,
     \<lparr>ident = ''WAS'', name = ''Washington Wizards''\<rparr>]"

text \<open>
  \<^verbatim>\<open>TEAMS.find(t => t.id === x) || { id: x, name: x }\<close>, the lookup that
  \<^verbatim>\<open>simulateGameProgress\<close> uses for both sides of a game.
\<close>
definition team_or_default :: "team_id \<Rightarrow> team" where
  "team_or_default x =
     (case find (\<lambda>t. ident t = x) TEAMS of
        Some t \<Rightarrow> t
      | None \<Rightarrow> \<lparr>ident = x, name = x\<rparr>)"

text \<open>JavaScript truthiness of a nullable string: \<^verbatim>\<open>null\<close> and \<^verbatim>\<open>""\<close> are falsy.\<close>
definition truthy :: "string option \<Rightarrow> bool" where
  "truthy s = (case s of None \<Rightarrow> False | Some v \<Rightarrow> v \<noteq> [])"

subsection \<open>Schedule entries and decided-game records\<close>

text \<open>
  The fields shared by a schedule entry and a record of the recent-scores view. Scores are
  \<open>None\<close> until the game is played.
\<close>
record game_core =
  game_id :: string
  date :: string
  home_team_id :: team_id
  away_team_id :: team_id
  home_score :: "int option"
  away_score :: "int option"

record game = game_core +
  result_for_user_team :: "string option"

record score_entry = game_core +
  home_team_name :: string
  away_team_name :: string
  status :: string
  is_overtime :: bool
  top_performers :: "string list"

text \<open>
  The recent-scores list holds two shapes of object: schedule entries that were already
  decided when the schedule was fetched, and records pushed to the front afterwards.
\<close>
datatype scores_item = Seeded game | Decided score_entry

record schedule_view =
  teamId :: "team_id option"
  games :: "game list"
  currentIndex :: int

record scores_view =
  latest_date :: "string option"
  score_games :: "scores_item list"

text \<open>
  The news item pushed after a game. Its title is a sentence built from the two team
  names, the two scores and the outcome; the model keeps those parts.
\<close>
record news_item =
  news_date :: string
  title_user :: string
  title_opp :: string
  title_my_score :: int
  title_opp_score :: int
  title_won :: bool
  related_team_ids :: "team_id list"

subsection \<open>Marker-gated caches\<close>

record cache_view =
  lastLoaded :: "string option"

record stats_view = cache_view +
  leaders :: "json option"

record standings_view = cache_view +
  east :: "json list"
  west :: "json list"

record teams_view = cache_view +
  list_t :: "json list"
  detailById :: "(team_id \<times> json) list"

record weeklyNews_view = cache_view +
  items :: "json list"

text \<open>The id \<^verbatim>\<open>`turn_${n}`\<close> of the latest completed turn.\<close>
datatype turn_id = Turn int

record cached_views =
  last_progress_turn_id :: "turn_id option"
  scores :: scores_view
  schedule :: schedule_view
  news :: "news_item list"
  stats :: stats_view
  standings :: standings_view
  teams :: teams_view
  weeklyNews :: weeklyNews_view

subsection \<open>Tactics\<close>

record tactics =
  pace :: real
  offenseScheme :: string
  offenseSecondaryScheme :: string
  offensePrimaryWeight :: real
  offenseSecondaryWeight :: real
  defenseScheme :: string
  defenseSecondaryScheme :: string
  defensePrimaryWeight :: real
  defenseSecondaryWeight :: real
  rotationSize :: nat
  starters :: "string list"
  bench :: "string list"
  minutes :: "(string \<times> real) list"

record app_state =
  apiKey :: "string option"
  selectedTeam :: "team option"
  progressTurns :: int
  currentDate :: "string option"
  cachedViews :: cached_views
  tacticsByTeam :: "team_id \<rightharpoonup> tactics"
  seasonReportReady :: bool
  seasonReportText :: "string option"

text \<open>The initial \<^verbatim>\<open>appState\<close> literal (src/unnamed/part_000, lines 2-30).\<close>
definition empty_views :: "team_id option \<Rightarrow> cached_views" where
  "empty_views t =
     \<lparr>last_progress_turn_id = None,
      scores = \<lparr>latest_date = None, score_games = []\<rparr>,
      schedule = \<lparr>teamId = t, games = [], currentIndex = 0\<rparr>,
      news = [],
      stats = \<lparr>lastLoaded = None, leaders = None\<rparr>,
      standings = \<lparr>lastLoaded = None, east = [], west = []\<rparr>,
      teams = \<lparr>lastLoaded = None, list_t = [], detailById = []\<rparr>,
      weeklyNews = \<lparr>lastLoaded = None, items = []\<rparr>\<rparr>"

definition initial_state :: app_state where
  "initial_state =
     \<lparr>apiKey = None, selectedTeam = None, progressTurns = 0, currentDate = None,
      cachedViews = empty_views None, tacticsByTeam = Map.empty,
      seasonReportReady = False, seasonReportText = None\<rparr>"

section \<open>External interface\<close>

text \<open>
  Every external call is a \<^verbatim>\<open>fetch\<close>. Its outcome is an input of the model: the request
  throws or the body cannot be parsed (\<open>Transport_error\<close>), the status is not a success
  (\<open>Not_ok\<close> with the body text), or the parsed body is returned (\<open>Ok\<close>). The time value
  of \<^verbatim>\<open>new Date(s)\<close> in milliseconds is an input as well (\<open>None\<close> for an invalid date).
\<close>

datatype 'a response = Transport_error | Not_ok string | Ok 'a

record schedule_data =
  data_games :: "game list option"

record league_game =
  lg_game_id :: string
  lg_date :: string
  lg_home_team_id :: team_id
  lg_away_team_id :: team_id
  lg_home_score :: "int option"
  lg_away_score :: "int option"
  lg_status :: "string option"
  lg_is_overtime :: "bool option"

record league_data =
  simulated_games :: "league_game list option"

record simulate_data =
  final_score :: "(team_id \<rightharpoonup> int) option"

record report_data =
  report_markdown :: "string option"
  report :: "string option"

text \<open>
  The tactics payload sent to the simulator: the full shape for the user's team,
  \<^verbatim>\<open>{ pace: 0 }\<close> for any other team.
\<close>
record full_payload =
  p_pace :: real
  offense_scheme :: string
  defense_scheme :: string
  scheme_weight_sharpness :: real
  scheme_outcome_strength :: real
  def_scheme_weight_sharpness :: real
  def_scheme_outcome_strength :: real
  rotation_size :: nat
  lineup_starters :: "string list"
  lineup_bench :: "string list"
  p_minutes :: "(string \<times> real) list"

datatype tactics_payload = Full_payload full_payload | Pace_only real

record simulate_request =
  req_home_team_id :: team_id
  req_away_team_id :: team_id
  home_tactics :: tactics_payload
  away_tactics :: tactics_payload
  game_date :: string

record env =
  team_schedule :: "team_id \<Rightarrow> schedule_data response"
  advance_league :: "string \<Rightarrow> team_id \<Rightarrow> league_data response"
  simulate_game :: "simulate_request \<Rightarrow> simulate_data response"
  season_report :: "string \<Rightarrow> team_id \<Rightarrow> report_data response"
  date_ms :: "string \<Rightarrow> int option"

text \<open>What an operation does to the outside: the requests it sends and the notices it shows.\<close>
datatype alert =
  Schedule_load_failed | Schedule_load_error
| No_more_games | Season_report_starts | Season_report_failed
| Match_engine_rejected string | Match_engine_error

datatype event =
  Fetch_team_schedule team_id
| Fetch_advance_league string team_id
| Fetch_simulate_game simulate_request
| Fetch_season_report string team_id
| Fetch_standings
| Fetch_stats_leaders
| Fetch_teams
| Fetch_weekly_news string
| Alert alert
| Warn_no_report

section \<open>ScheduleStore (src/static/Game\_sims.js)\<close>

text \<open>\<^verbatim>\<open>g.home_score == null && g.away_score == null\<close>: an entry that has not been played.\<close>
definition unplayed :: "game \<Rightarrow> bool" where
  "unplayed g = (home_score g = None \<and> away_score g = None)"

text \<open>\<^verbatim>\<open>g.home_score != null && g.away_score != null\<close>: an entry that is decided.\<close>
definition finished :: "game \<Rightarrow> bool" where
  "finished g = (home_score g \<noteq> None \<and> away_score g \<noteq> None)"

text \<open>
  The index scan that both the \<^verbatim>\<open>for\<close> loop of \<^verbatim>\<open>getNextScheduledGame\<close> and
  \<^verbatim>\<open>Array.prototype.findIndex\<close> perform: the first index from \<open>i\<close> on whose element
  satisfies the predicate.
\<close>
fun first_index_from :: "('a \<Rightarrow> bool) \<Rightarrow> 'a list \<Rightarrow> nat \<Rightarrow> nat option" where
  "first_index_from P [] i = None"
| "first_index_from P (x # xs) i = (if P x then Some i else first_index_from P xs (Suc i))"

text \<open>\<^verbatim>\<open>xs.findIndex(P)\<close>, with \<open>-1\<close> when no element satisfies \<open>P\<close>.\<close>
definition findIndex :: "('a \<Rightarrow> bool) \<Rightarrow> 'a list \<Rightarrow> int" where
  "findIndex P xs = (case first_index_from P xs 0 of None \<Rightarrow> - 1 | Some i \<Rightarrow> int i)"

definition set_schedule :: "schedule_view \<Rightarrow> app_state \<Rightarrow> app_state" where
  "set_schedule sch st = st\<lparr>cachedViews := (cachedViews st)\<lparr>schedule := sch\<rparr>\<rparr>"

definition set_scores :: "scores_view \<Rightarrow> app_state \<Rightarrow> app_state" where
  "set_scores sc st = st\<lparr>cachedViews := (cachedViews st)\<lparr>scores := sc\<rparr>\<rparr>"

text \<open>
  \<^verbatim>\<open>getNextScheduledGame\<close> (lines 12-24): the first entry with both scores unset. When
  one exists the cursor is moved to it and the entry is returned with its index; when
  none exists the result is \<open>None\<close> and the cursor is left where it was.
\<close>
definition getNextScheduledGame :: "app_state \<Rightarrow> (nat \<times> game) option \<times> app_state" where
  "getNextScheduledGame st =
     (let sch = schedule (cachedViews st) in
      case first_index_from unplayed (games sch) 0 of
        None \<Rightarrow> (None, st)
      | Some i \<Rightarrow> (Some (i, games sch ! i), set_schedule (sch\<lparr>currentIndex := int i\<rparr>) st))"

text \<open>
  The comparison \<^verbatim>\<open>a < b\<close> of two JavaScript strings: lexicographic on code units.
\<close>
fun str_less :: "string \<Rightarrow> string \<Rightarrow> bool" where
  "str_less [] [] = False"
| "str_less [] (y # ys) = True"
| "str_less (x # xs) [] = False"
| "str_less (x # xs) (y # ys) =
     ((of_char x :: nat) < of_char y \<or> (x = y \<and> str_less xs ys))"

text \<open>
  \<^verbatim>\<open>.sort((a, b) => (a.date < b.date ? 1 : -1))\<close>: later dates first. The comparator
  never answers 0, so the order of entries with equal dates is left to the engine; the
  model inserts each entry in front of the first entry whose date is not later.
\<close>
fun insert_desc :: "game \<Rightarrow> game list \<Rightarrow> game list" where
  "insert_desc g [] = [g]"
| "insert_desc g (h # hs) =
     (if str_less (date g) (date h) then h # insert_desc g hs else g # h # hs)"

definition sort_desc :: "game list \<Rightarrow> game list" where
  "sort_desc gs = foldr insert_desc gs []"

text \<open>The object literal that \<^verbatim>\<open>games.map\<close> builds for each fetched entry (lines 133-141).\<close>
definition copy_game :: "game \<Rightarrow> game" where
  "copy_game g =
     \<lparr>game_id = game_id g, date = date g,
      home_team_id = home_team_id g, away_team_id = away_team_id g,
      home_score = home_score g, away_score = away_score g,
      result_for_user_team = result_for_user_team g\<rparr>"

text \<open>
  The part of \<^verbatim>\<open>generateSeasonSchedule\<close> after a successful fetch (lines 129-163):
  store the entries, place the cursor, seed the recent-scores view, set the in-game date.
\<close>
definition store_schedule :: "team_id \<Rightarrow> schedule_data \<Rightarrow> app_state \<Rightarrow> app_state" where
  "store_schedule tid d st =
     (let gs = map copy_game (case data_games d of None \<Rightarrow> [] | Some l \<Rightarrow> l);
          idx = findIndex unplayed gs;
          cur = (if idx = - 1 then int (length gs) - 1 else idx);
          fin = sort_desc (filter finished gs);
          latest = (case fin of [] \<Rightarrow> None | g # _ \<Rightarrow> if date g = [] then None else Some (date g));
          st1 = set_schedule \<lparr>teamId = Some tid, games = gs, currentIndex = cur\<rparr> st;
          st2 = set_scores \<lparr>latest_date = latest, score_games = map Seeded (take 50 fin)\<rparr> st1
      in case gs of [] \<Rightarrow> st2 | g # _ \<Rightarrow> st2\<lparr>currentDate := Some (date g)\<rparr>)"

text \<open>
  \<^verbatim>\<open>generateSeasonSchedule(teamId)\<close> (lines 109-168). It returns at once when the store
  holds a non-empty schedule of that team. Otherwise it empties the schedule, sends the
  request and, on success, stores the answer; on a failure the emptied schedule stays.
\<close>
definition generateSeasonSchedule :: "env \<Rightarrow> team_id \<Rightarrow> app_state \<Rightarrow> app_state \<times> event list" where
  "generateSeasonSchedule e tid st =
     (let sch = schedule (cachedViews st) in
      if teamId sch = Some tid \<and> games sch \<noteq> [] then (st, [])
      else
        let st1 = set_schedule \<lparr>teamId = Some tid, games = [], currentIndex = 0\<rparr> st in
        case team_schedule e tid of
          Transport_error \<Rightarrow> (st1, [Fetch_team_schedule tid, Alert Schedule_load_error])
        | Not_ok msg \<Rightarrow> (st1, [Fetch_team_schedule tid, Alert Schedule_load_failed])
        | Ok d \<Rightarrow> (store_schedule tid d st1, [Fetch_team_schedule tid]))"

section \<open>FatigueModel (src/static/Game\_sims.js)\<close>

text \<open>\<^verbatim>\<open>g.home_team_id === teamId || g.away_team_id === teamId\<close>.\<close>
definition involves :: "team_id option \<Rightarrow> game \<Rightarrow> bool" where
  "involves t g = (Some (home_team_id g) = t \<or> Some (away_team_id g) = t)"

text \<open>
  The backward loop of lines 37-44, \<open>last_game_date t gs n\<close> looking at the indices
  \<open>n - 1, ..., 0\<close>: an index past the end of the array reads \<^verbatim>\<open>undefined\<close> and is
  skipped; the first entry that involves the team ends the loop with its date.
\<close>
fun last_game_date :: "team_id option \<Rightarrow> game list \<Rightarrow> nat \<Rightarrow> string option" where
  "last_game_date t gs 0 = None"
| "last_game_date t gs (Suc i) =
     (if i < length gs \<and> involves t (gs ! i) then Some (date (gs ! i))
      else last_game_date t gs i)"

text \<open>
  \<^verbatim>\<open>computeRestDaysForUserTeam\<close> (lines 27-62). A date that is the empty string is
  falsy, so it counts as no earlier game; an index outside the array reads
  \<^verbatim>\<open>undefined\<close> as the current game and gives 0. The result \<open>None\<close> is \<^verbatim>\<open>NaN\<close>,
  which the arithmetic yields when one of the two dates is invalid. The quotient of the
  two time values is an integer division here: \<^verbatim>\<open>Math.floor\<close> of the exact quotient.
\<close>
definition computeRestDaysForUserTeam :: "env \<Rightarrow> app_state \<Rightarrow> int option" where
  "computeRestDaysForUserTeam e st =
     (let sch = schedule (cachedViews st) in
      if games sch = [] then Some 0
      else
        case last_game_date (teamId sch) (games sch) (nat (currentIndex sch)) of
          None \<Rightarrow> Some 3
        | Some lastGameDate \<Rightarrow>
            if lastGameDate = [] then Some 3
            else if currentIndex sch < 0 \<or> int (length (games sch)) \<le> currentIndex sch
            then Some 0
            else
              (case (date_ms e lastGameDate,
                     date_ms e (date (games sch ! nat (currentIndex sch)))) of
                 (Some d1, Some d2) \<Rightarrow>
                   Some (max 0 ((d2 - d1) div (1000 * 60 * 60 * 24) - 1))
               | _ \<Rightarrow> None))"

text \<open>\<^verbatim>\<open>calcFatigueFactor\<close> (lines 65-71); every comparison with \<^verbatim>\<open>NaN\<close> is false.\<close>
definition calcFatigueFactor :: "int option \<Rightarrow> real" where
  "calcFatigueFactor restDays =
     (case restDays of
        None \<Rightarrow> 1.05
      | Some r \<Rightarrow>
          if r \<le> 0 then 0.92
          else if r = 1 then 0.97
          else if r = 2 then 1.0
          else if r = 3 then 1.03
          else 1.05)"

section \<open>TacticsProjector\<close>

text \<open>\<^verbatim>\<open>getDefaultTactics\<close> (src/unnamed/part_000, lines 360-376).\<close>
definition getDefaultTactics :: tactics where
  "getDefaultTactics =
     \<lparr>pace = 0,
      offenseScheme = ''pace_space'', offenseSecondaryScheme = ''pace_space'',
      offensePrimaryWeight = 5, offenseSecondaryWeight = 5,
      defenseScheme = ''drop_coverage'', defenseSecondaryScheme = ''drop_coverage'',
      defensePrimaryWeight = 5, defenseSecondaryWeight = 5,
      rotationSize = 9, starters = [], bench = [], minutes = []\<rparr>"

text \<open>
  \<^verbatim>\<open>getOrCreateTacticsForTeam\<close> (src/unnamed/part_000, lines 378-387): \<^verbatim>\<open>null\<close> for a
  falsy id; otherwise the stored profile of the team, created from the defaults when the
  team has none.
\<close>
definition getOrCreateTacticsForTeam :: "team_id \<Rightarrow> app_state \<Rightarrow> tactics option \<times> app_state" where
  "getOrCreateTacticsForTeam tid st =
     (if tid = [] then (None, st)
      else case tacticsByTeam st tid of
             Some t \<Rightarrow> (Some t, st)
           | None \<Rightarrow>
               (Some getDefaultTactics,
                st\<lparr>tacticsByTeam := (tacticsByTeam st)(tid \<mapsto> getDefaultTactics)\<rparr>))"

text \<open>\<^verbatim>\<open>normalizeWeight\<close> (src/static/Game\_sims.js, lines 80-84) on a finite number.\<close>
definition normalizeWeight :: "real \<Rightarrow> real" where
  "normalizeWeight v = max 0.2 (v / 5)"

definition project_tactics :: "tactics \<Rightarrow> full_payload" where
  "project_tactics t =
     \<lparr>p_pace = pace t,
      offense_scheme = (if offenseScheme t = [] then ''Spread_HeavyPnR'' else offenseScheme t),
      defense_scheme = (if defenseScheme t = [] then ''Drop'' else defenseScheme t),
      scheme_weight_sharpness = normalizeWeight (offensePrimaryWeight t),
      scheme_outcome_strength = normalizeWeight (offenseSecondaryWeight t),
      def_scheme_weight_sharpness = normalizeWeight (defensePrimaryWeight t),
      def_scheme_outcome_strength = normalizeWeight (defenseSecondaryWeight t),
      rotation_size = (if rotationSize t = 0 then 9 else rotationSize t),
      lineup_starters = starters t,
      lineup_bench = bench t,
      p_minutes = minutes t\<rparr>"

text \<open>
  \<^verbatim>\<open>buildTacticsForTeam(teamId, fatigueFactor)\<close> (src/static/Game\_sims.js, lines 74-106).
  The result \<open>None\<close> is the \<^verbatim>\<open>TypeError\<close> raised when the profile is \<^verbatim>\<open>null\<close>.
\<close>
definition buildTacticsForTeam ::
  "team_id \<Rightarrow> real \<Rightarrow> app_state \<Rightarrow> tactics_payload option \<times> app_state" where
  "buildTacticsForTeam tid fatigueFactor st =
     (let isUserTeam = (case selectedTeam st of None \<Rightarrow> False | Some u \<Rightarrow> ident u = tid) in
      if isUserTeam then
        (case getOrCreateTacticsForTeam tid st of
           (None, st') \<Rightarrow> (None, st')
         | (Some t, st') \<Rightarrow> (Some (Full_payload (project_tactics t)), st'))
      else (Some (Pace_only 0), st))"

section \<open>LeagueAdvancer\<close>

text \<open>The record built for each game the league catch-up decided (lines 329-341).\<close>
definition league_entry :: "league_game \<Rightarrow> score_entry" where
  "league_entry g =
     \<lparr>game_id = lg_game_id g, date = lg_date g,
      home_team_id = lg_home_team_id g, away_team_id = lg_away_team_id g,
      home_score = lg_home_score g, away_score = lg_away_score g,
      home_team_name = name (team_or_default (lg_home_team_id g)),
      away_team_name = name (team_or_default (lg_away_team_id g)),
      status = (case lg_status g of None \<Rightarrow> ''final'' | Some s \<Rightarrow> if s = [] then ''final'' else s),
      is_overtime = (case lg_is_overtime g of None \<Rightarrow> False | Some b \<Rightarrow> b),
      top_performers = []\<rparr>"

text \<open>
  Lines 318-346: each decided game is pushed to the front of the recent-scores list, in
  the order of the answer, and the latest date becomes the date of the first one.
\<close>
definition merge_league :: "league_data \<Rightarrow> app_state \<Rightarrow> app_state" where
  "merge_league d st =
     (let simulated = (case simulated_games d of None \<Rightarrow> [] | Some l \<Rightarrow> l);
          sc = scores (cachedViews st);
          gs = foldl (\<lambda>acc g. Decided (league_entry g) # acc) (score_games sc) simulated
      in set_scores
           \<lparr>latest_date = (case simulated of [] \<Rightarrow> latest_date sc | g # _ \<Rightarrow> Some (lg_date g)),
            score_games = gs\<rparr> st)"

text \<open>Lines 304-350: the catch-up call; a failure of either kind is logged and ignored.\<close>
definition advance_league_step :: "env \<Rightarrow> string \<Rightarrow> team_id \<Rightarrow> app_state \<Rightarrow> app_state \<times> event list" where
  "advance_league_step e gameDate uid st =
     (case advance_league e gameDate uid of
        Ok d \<Rightarrow> (merge_league d st, [Fetch_advance_league gameDate uid])
      | Not_ok msg \<Rightarrow> (st, [Fetch_advance_league gameDate uid])
      | Transport_error \<Rightarrow> (st, [Fetch_advance_league gameDate uid]))"

section \<open>GameOrchestrator: \<^verbatim>\<open>simulateGameProgress\<close>\<close>

record success_result =
  r_game_id :: string
  r_game_date :: string
  r_home_team_id :: team_id
  r_away_team_id :: team_id
  r_home_team_name :: string
  r_away_team_name :: string
  r_home_score :: int
  r_away_score :: int
  r_result_for_user_team :: "string option"
  log_entry :: score_entry

text \<open>
  What \<^verbatim>\<open>simulateGameProgress\<close> returns: \<^verbatim>\<open>false\<close>, the object
  \<^verbatim>\<open>{ success: false, reason: "no-more-regular-season" }\<close>, or the success object.
\<close>
datatype sim_result = Failed | No_more_regular_season | Success success_result

text \<open>\<^verbatim>\<open>finalScore[id] ?? 0\<close> on \<^verbatim>\<open>data.final_score || {}\<close> (lines 384-386).\<close>
definition score_of :: "simulate_data \<Rightarrow> team_id \<Rightarrow> int" where
  "score_of d tid =
     (case final_score d of
        None \<Rightarrow> 0
      | Some m \<Rightarrow> (case m tid of None \<Rightarrow> 0 | Some v \<Rightarrow> v))"

text \<open>
  Lines 383-478, the writes after a successful simulator answer. \<open>i\<close> is the index of
  \<^verbatim>\<open>nextGame\<close> in the schedule: the entry object is mutated in place. The render calls
  of lines 456-457 read the state; they start the stats, teams and news accessors while the
  markers are still as before the game, and what an accessor does is a step of its own
  (see the accessors below). The markers are nulled last.
\<close>
definition apply_result ::
  "team \<Rightarrow> team \<Rightarrow> team \<Rightarrow> nat \<Rightarrow> game \<Rightarrow> simulate_data \<Rightarrow> app_state \<Rightarrow> sim_result \<times> app_state" where
  "apply_result userTeam homeTeam awayTeam i nextGame d st =
     (let homeScore = score_of d (ident homeTeam);
          awayScore = score_of d (ident awayTeam);
          turns = progressTurns st + 1;
          gameDate = date nextGame;
          isUserHome = (ident userTeam = ident homeTeam);
          userGameEntry =
            \<lparr>game_id = game_id nextGame, date = gameDate,
             home_team_id = ident homeTeam, away_team_id = ident awayTeam,
             home_score = Some homeScore, away_score = Some awayScore,
             home_team_name = name homeTeam, away_team_name = name awayTeam,
             status = ''final'', is_overtime = False, top_performers = []\<rparr>;
          myScore = (if isUserHome then homeScore else awayScore);
          oppScore = (if isUserHome then awayScore else homeScore);
          res = (if myScore > oppScore then ''W'' else ''L'');
          played = nextGame\<lparr>home_score := Some homeScore, away_score := Some awayScore,
                             result_for_user_team := Some res\<rparr>;
          oppTeam = (if isUserHome then awayTeam else homeTeam);
          item = \<lparr>news_date = gameDate, title_user = name userTeam, title_opp = name oppTeam,
                  title_my_score = myScore, title_opp_score = oppScore,
                  title_won = (myScore > oppScore),
                  related_team_ids = [ident userTeam, ident oppTeam]\<rparr>;
          cv = cachedViews st;
          cv' = cv\<lparr>last_progress_turn_id := Some (Turn turns),
                   scores := \<lparr>latest_date = Some gameDate,
                              score_games = Decided userGameEntry # score_games (scores cv)\<rparr>,
                   schedule := (schedule cv)\<lparr>games := (games (schedule cv))[i := played]\<rparr>,
                   news := item # news cv,
                   stats := (stats cv)\<lparr>lastLoaded := None\<rparr>,
                   standings := (standings cv)\<lparr>lastLoaded := None\<rparr>,
                   weeklyNews := (weeklyNews cv)\<lparr>lastLoaded := None\<rparr>,
                   teams := (teams cv)\<lparr>lastLoaded := None\<rparr>\<rparr>
      in (Success
            \<lparr>r_game_id = game_id nextGame, r_game_date = gameDate,
             r_home_team_id = ident homeTeam, r_away_team_id = ident awayTeam,
             r_home_team_name = name homeTeam, r_away_team_name = name awayTeam,
             r_home_score = homeScore, r_away_score = awayScore,
             r_result_for_user_team = Some res, log_entry = userGameEntry\<rparr>,
          st\<lparr>progressTurns := turns, currentDate := Some gameDate, cachedViews := cv'\<rparr>))"

text \<open>\<^verbatim>\<open>handleSeasonReportGenerated\<close> (src/static/ui.js, lines 1340-1344).\<close>
definition handleSeasonReportGenerated :: "string \<Rightarrow> app_state \<Rightarrow> app_state" where
  "handleSeasonReportGenerated reportText st =
     st\<lparr>seasonReportReady := True, seasonReportText := Some reportText\<rparr>"

text \<open>
  Lines 241-292, the end of the regular season: two notices, then a season report is
  requested when a credential and a selected team are there (the page's output element is
  taken to exist). A report that is not empty is handed to
  \<^verbatim>\<open>handleSeasonReportGenerated\<close>.
\<close>
definition season_complete :: "env \<Rightarrow> app_state \<Rightarrow> sim_result \<times> app_state \<times> event list" where
  "season_complete e st =
     (let notices = [Alert No_more_games, Alert Season_report_starts] in
      case (apiKey st, selectedTeam st) of
        (Some k, Some u) \<Rightarrow>
          if k = [] then (No_more_regular_season, st, notices @ [Warn_no_report])
          else
            (case season_report e k (ident u) of
               Transport_error \<Rightarrow>
                 (No_more_regular_season, st,
                  notices @ [Fetch_season_report k (ident u), Alert Season_report_failed])
             | Not_ok msg \<Rightarrow>
                 (No_more_regular_season, st,
                  notices @ [Fetch_season_report k (ident u), Alert Season_report_failed])
             | Ok d \<Rightarrow>
                 (let rep = (if truthy (report_markdown d) then report_markdown d
                             else if truthy (report d) then report d else None)
                  in (No_more_regular_season,
                      (case rep of None \<Rightarrow> st | Some r \<Rightarrow> handleSeasonReportGenerated r st),
                      notices @ [Fetch_season_report k (ident u)])))
      | _ \<Rightarrow> (No_more_regular_season, st, notices @ [Warn_no_report]))"

text \<open>
  Lines 294-483, one game of the user's team: league catch-up, fatigue, both tactics
  payloads, the simulator call and, on success, the writes of \<open>apply_result\<close>.
\<close>
definition play_game ::
  "env \<Rightarrow> team \<Rightarrow> nat \<Rightarrow> game \<Rightarrow> app_state \<Rightarrow> sim_result \<times> app_state \<times> event list" where
  "play_game e userTeam i nextGame st =
     (let homeTeam = team_or_default (home_team_id nextGame);
          awayTeam = team_or_default (away_team_id nextGame);
          gameDate = date nextGame;
          (st1, ev1) = advance_league_step e gameDate (ident userTeam) st;
          restDays = computeRestDaysForUserTeam e st1;
          fatigueFactor = calcFatigueFactor restDays;
          isUserHome = (ident userTeam = ident homeTeam);
          homeFatigue = (if isUserHome then fatigueFactor else 1.0);
          awayFatigue = (if \<not> isUserHome then fatigueFactor else 1.0)
      in case buildTacticsForTeam (ident homeTeam) homeFatigue st1 of
           (None, st2) \<Rightarrow> (Failed, st2, ev1 @ [Alert Match_engine_error])
         | (Some homeTactics, st2) \<Rightarrow>
             (case buildTacticsForTeam (ident awayTeam) awayFatigue st2 of
                (None, st3) \<Rightarrow> (Failed, st3, ev1 @ [Alert Match_engine_error])
              | (Some awayTactics, st3) \<Rightarrow>
                  (let req = \<lparr>req_home_team_id = ident homeTeam,
                              req_away_team_id = ident awayTeam,
                              home_tactics = homeTactics, away_tactics = awayTactics,
                              game_date = gameDate\<rparr>
                   in case simulate_game e req of
                        Transport_error \<Rightarrow>
                          (Failed, st3, ev1 @ [Fetch_simulate_game req, Alert Match_engine_error])
                      | Not_ok msg \<Rightarrow>
                          (Failed, st3,
                           ev1 @ [Fetch_simulate_game req, Alert (Match_engine_rejected msg)])
                      | Ok d \<Rightarrow>
                          (case apply_result userTeam homeTeam awayTeam i nextGame d st3 of
                             (r, st4) \<Rightarrow> (r, st4, ev1 @ [Fetch_simulate_game req])))))"

text \<open>
  \<^verbatim>\<open>simulateGameProgress\<close> (lines 228-484). The user's team is the selected team, or
  the first entry of \<^verbatim>\<open>TEAMS\<close> when none is selected. A falsy \<^verbatim>\<open>schedule.teamId\<close> is
  replaced by the user's team id; a truthy one is kept.
\<close>
definition simulateGameProgress :: "env \<Rightarrow> app_state \<Rightarrow> sim_result \<times> app_state \<times> event list" where
  "simulateGameProgress e st =
     (let userTeam = (case selectedTeam st of None \<Rightarrow> hd TEAMS | Some t \<Rightarrow> t);
          sch = schedule (cachedViews st);
          tid = (case teamId sch of
                   None \<Rightarrow> ident userTeam
                 | Some t \<Rightarrow> if t = [] then ident userTeam else t);
          st1 = set_schedule (sch\<lparr>teamId := Some tid\<rparr>) st;
          (st2, ev2) = (if games sch = [] then generateSeasonSchedule e tid st1 else (st1, []))
      in case getNextScheduledGame st2 of
           (None, st3) \<Rightarrow>
             (case season_complete e st3 of (r, st4, ev) \<Rightarrow> (r, st4, ev2 @ ev))
         | (Some (i, nextGame), st3) \<Rightarrow>
             (case play_game e userTeam i nextGame st3 of (r, st4, ev) \<Rightarrow> (r, st4, ev2 @ ev)))"


section \<open>ViewCache accessors (src/static/ui.js)\<close>

record standings_data =
  data_east :: "json list option"
  data_west :: "json list option"

record stats_data =
  data_leaders :: "json option"
  updated_at :: "string option"

record weekly_data =
  data_items :: "json list option"
  current_date :: "string option"

text \<open>
  Each accessor takes the \<^verbatim>\<open>force\<close> flag, the outcome of its request (read only when
  the request is sent) and the clock reading \<^verbatim>\<open>new Date().toISOString()\<close>. A failed
  request is logged and leaves the cache as it was.
\<close>

text \<open>\<^verbatim>\<open>loadStandingsIfNeeded\<close> (lines 980-998).\<close>
definition loadStandingsIfNeeded ::
  "bool \<Rightarrow> standings_data response \<Rightarrow> string \<Rightarrow> app_state \<Rightarrow> app_state \<times> event list" where
  "loadStandingsIfNeeded force resp now st =
     (let cv = standings (cachedViews st) in
      if \<not> force \<and> truthy (lastLoaded cv) then (st, [])
      else case resp of
             Ok d \<Rightarrow>
               (st\<lparr>cachedViews := (cachedViews st)
                    \<lparr>standings := cv
                       \<lparr>east := (case data_east d of None \<Rightarrow> [] | Some l \<Rightarrow> l),
                        west := (case data_west d of None \<Rightarrow> [] | Some l \<Rightarrow> l),
                        lastLoaded := Some now\<rparr>\<rparr>\<rparr>,
                [Fetch_standings])
           | Not_ok msg \<Rightarrow> (st, [Fetch_standings])
           | Transport_error \<Rightarrow> (st, [Fetch_standings]))"

text \<open>\<^verbatim>\<open>loadStatsLeadersIfNeeded\<close> (lines 1036-1052).\<close>
definition loadStatsLeadersIfNeeded ::
  "bool \<Rightarrow> stats_data response \<Rightarrow> string \<Rightarrow> app_state \<Rightarrow> app_state \<times> event list" where
  "loadStatsLeadersIfNeeded force resp now st =
     (let cv = stats (cachedViews st) in
      if \<not> force \<and> truthy (lastLoaded cv) then (st, [])
      else case resp of
             Ok d \<Rightarrow>
               (st\<lparr>cachedViews := (cachedViews st)
                    \<lparr>stats := cv
                       \<lparr>leaders := data_leaders d,
                        lastLoaded := (if truthy (updated_at d) then updated_at d else Some now)\<rparr>\<rparr>\<rparr>,
                [Fetch_stats_leaders])
           | Not_ok msg \<Rightarrow> (st, [Fetch_stats_leaders])
           | Transport_error \<Rightarrow> (st, [Fetch_stats_leaders]))"

text \<open>
  \<^verbatim>\<open>loadTeamsListIfNeeded\<close> (lines 1098-1115). Its guard reads the length of the cached
  list, not the marker. The body is \<open>None\<close> when the answer is not an array.
\<close>
definition loadTeamsListIfNeeded ::
  "bool \<Rightarrow> json list option response \<Rightarrow> string \<Rightarrow> app_state \<Rightarrow> app_state \<times> event list" where
  "loadTeamsListIfNeeded force resp now st =
     (let cv = teams (cachedViews st) in
      if \<not> force \<and> length (list_t cv) > 0 then (st, [])
      else case resp of
             Ok d \<Rightarrow>
               (st\<lparr>cachedViews := (cachedViews st)
                    \<lparr>teams := cv
                       \<lparr>list_t := (case d of None \<Rightarrow> [] | Some l \<Rightarrow> l),
                        lastLoaded := Some now\<rparr>\<rparr>\<rparr>,
                [Fetch_teams])
           | Not_ok msg \<Rightarrow> (st, [Fetch_teams])
           | Transport_error \<Rightarrow> (st, [Fetch_teams]))"

text \<open>\<^verbatim>\<open>loadWeeklyNewsIfNeeded\<close> (lines 1247-1269); without a credential it does nothing.\<close>
definition loadWeeklyNewsIfNeeded ::
  "bool \<Rightarrow> weekly_data response \<Rightarrow> string \<Rightarrow> app_state \<Rightarrow> app_state \<times> event list" where
  "loadWeeklyNewsIfNeeded force resp now st =
     (let cv = weeklyNews (cachedViews st) in
      case apiKey st of
        None \<Rightarrow> (st, [])
      | Some k \<Rightarrow>
          if k = [] then (st, [])
          else if \<not> force \<and> truthy (lastLoaded cv) then (st, [])
          else case resp of
                 Ok d \<Rightarrow>
                   (st\<lparr>cachedViews := (cachedViews st)
                        \<lparr>weeklyNews := cv
                           \<lparr>items := (case data_items d of None \<Rightarrow> [] | Some l \<Rightarrow> l),
                            lastLoaded := (if truthy (current_date d) then current_date d
                                           else Some now)\<rparr>\<rparr>\<rparr>,
                    [Fetch_weekly_news k])
               | Not_ok msg \<Rightarrow> (st, [Fetch_weekly_news k])
               | Transport_error \<Rightarrow> (st, [Fetch_weekly_news k]))"

section \<open>Team selection (src/static/ui.js)\<close>

text \<open>
  \<^verbatim>\<open>selectTeam\<close> (lines 281-323): an id that is not in \<^verbatim>\<open>TEAMS\<close> changes nothing.
  Otherwise the team becomes the selected one, the turn counter and every cached view are
  reset, the schedule is the empty schedule of the new team, and
  \<^verbatim>\<open>getOrCreateTacticsForTeam\<close> prepares the team's profile. The map
  \<^verbatim>\<open>tacticsByTeam\<close> itself is not assigned.
\<close>
definition selectTeam :: "team_id \<Rightarrow> app_state \<Rightarrow> app_state" where
  "selectTeam tid st =
     (case find (\<lambda>t. ident t = tid) TEAMS of
        None \<Rightarrow> st
      | Some team \<Rightarrow>
          snd (getOrCreateTacticsForTeam (ident team)
                 (st\<lparr>selectedTeam := Some team,
                     progressTurns := 0,
                     cachedViews := empty_views (Some (ident team)),
                     seasonReportReady := False\<rparr>)))"

text \<open>
  The input handler of the pace slider (lines 791-799), with the slider's number \<open>v\<close>: it
  writes the pace of the selected team's profile, creating the profile when needed.
  Without a selected team it does nothing; a profile that is \<^verbatim>\<open>null\<close> makes the
  handler throw before any write.
\<close>
definition on_pace_input :: "real \<Rightarrow> app_state \<Rightarrow> app_state" where
  "on_pace_input v st =
     (case selectedTeam st of
        None \<Rightarrow> st
      | Some team \<Rightarrow>
          (case getOrCreateTacticsForTeam (ident team) st of
             (None, st') \<Rightarrow> st'
           | (Some t, st') \<Rightarrow>
               st'\<lparr>tacticsByTeam := (tacticsByTeam st')(ident team \<mapsto> t\<lparr>pace := v\<rparr>)\<rparr>))"

section \<open>PostseasonStateMachine: the play-in stage (src/static/ui.js)\<close>

record participant =
  team_id_of :: team_id

record play_in_result =
  winner :: team_id

record play_in_matchup =
  home :: "participant option"
  away :: "participant option"
  result :: "play_in_result option"

record play_in_conf =
  participants :: "participant option list"
  matchups :: "(string \<rightharpoonup> play_in_matchup) option"

text \<open>\<^verbatim>\<open>matchup.home?.team_id === myId || matchup.away?.team_id === myId\<close>.\<close>
definition plays_in :: "team_id \<Rightarrow> play_in_matchup \<Rightarrow> bool" where
  "plays_in myId m =
     (map_option team_id_of (home m) = Some myId \<or> map_option team_id_of (away m) = Some myId)"

text \<open>
  The loop of \<^verbatim>\<open>nextPlayInMatchup\<close> (lines 1397-1405) over the remaining keys: a key
  with no matchup or with a result is skipped; the first other matchup that the user's
  team plays in is returned.
\<close>
fun scan_play_in ::
  "team_id option \<Rightarrow> (string \<rightharpoonup> play_in_matchup) \<Rightarrow> string list \<Rightarrow> play_in_matchup option" where
  "scan_play_in myId ms [] = None"
| "scan_play_in myId ms (key # keys) =
     (case ms key of
        None \<Rightarrow> scan_play_in myId ms keys
      | Some m \<Rightarrow>
          if result m \<noteq> None then scan_play_in myId ms keys
          else (case myId of
                  None \<Rightarrow> scan_play_in myId ms keys
                | Some my \<Rightarrow>
                    if my \<noteq> [] \<and> plays_in my m then Some m
                    else scan_play_in myId ms keys))"

definition play_in_order :: "string list" where
  "play_in_order = [''seven_vs_eight'', ''nine_vs_ten'', ''final'']"

text \<open>\<^verbatim>\<open>nextPlayInMatchup(confState)\<close> (lines 1393-1407).\<close>
definition nextPlayInMatchup :: "app_state \<Rightarrow> play_in_conf option \<Rightarrow> play_in_matchup option" where
  "nextPlayInMatchup st confState =
     (case confState of
        None \<Rightarrow> None
      | Some c \<Rightarrow>
          scan_play_in (map_option ident (selectedTeam st))
            (case matchups c of None \<Rightarrow> Map.empty | Some ms \<Rightarrow> ms) play_in_order)"

text \<open>
  \<^verbatim>\<open>findMyPlayInConf\<close> (lines 1371-1382): the first conference, in the order of the
  state's keys, one of whose participants is the selected team.
\<close>
definition findMyPlayInConf ::
  "app_state \<Rightarrow> (string \<times> play_in_conf) list option \<Rightarrow> (string \<times> play_in_conf) option" where
  "findMyPlayInConf st playInState =
     (case (playInState, selectedTeam st) of
        (Some confs, Some u) \<Rightarrow>
          find (\<lambda>(confKey, c).
                  list_ex (\<lambda>p. case p of None \<Rightarrow> False | Some q \<Rightarrow> team_id_of q = ident u)
                    (participants c)) confs
      | _ \<Rightarrow> None)"

text \<open>
  The matchup that \<^verbatim>\<open>renderPlayInStage\<close> (lines 1409-1416) shows as next and enables the
  play-in button for: \<^verbatim>\<open>myInfo ? nextPlayInMatchup(myInfo.confState) : null\<close>.
\<close>
definition myNextPlayInMatchup ::
  "app_state \<Rightarrow> (string \<times> play_in_conf) list option \<Rightarrow> play_in_matchup option" where
  "myNextPlayInMatchup st playInState =
     (case findMyPlayInConf st playInState of
        None \<Rightarrow> None
      | Some (confKey, c) \<Rightarrow> nextPlayInMatchup st (Some c))"

section \<open>Concrete inputs\<close>

text \<open>
  An instance of \<open>date_ms\<close> for the examples: the date-only form \<^verbatim>\<open>YYYY-MM-DD\<close>, which
  \<^verbatim>\<open>new Date\<close> reads as midnight UTC of that day. Any other string is an invalid date
  here.
\<close>
definition digit_of :: "char \<Rightarrow> int option" where
  "digit_of c =
     (let n = (of_char c :: nat) in if 48 \<le> n \<and> n \<le> 57 then Some (int n - 48) else None)"

fun digits_val :: "string \<Rightarrow> int \<Rightarrow> int option" where
  "digits_val [] acc = Some acc"
| "digits_val (c # cs) acc =
     (case digit_of c of None \<Rightarrow> None | Some d \<Rightarrow> digits_val cs (10 * acc + d))"

definition days_in_month :: "int \<Rightarrow> int \<Rightarrow> int" where
  "days_in_month y m =
     (if m = 2 then (if y mod 4 = 0 \<and> (y mod 400 = 0 \<or> y mod 100 \<noteq> 0) then 29 else 28)
      else if m = 4 \<or> m = 6 \<or> m = 9 \<or> m = 11 then 30 else 31)"

text \<open>Days from 1970-01-01 to the given day of the proleptic Gregorian calendar.\<close>
definition days_from_civil :: "int \<Rightarrow> int \<Rightarrow> int \<Rightarrow> int" where
  "days_from_civil y m d =
     (let y' = (if m \<le> 2 then y - 1 else y);
          era = y' div 400;
          yoe = y' - era * 400;
          doy = (153 * (if m > 2 then m - 3 else m + 9) + 2) div 5 + d - 1;
          doe = yoe * 365 + yoe div 4 - yoe div 100 + doy
      in era * 146097 + doe - 719468)"

definition iso_date_ms :: "string \<Rightarrow> int option" where
  "iso_date_ms s =
     (if length s = 10 \<and> s ! 4 = CHR ''-'' \<and> s ! 7 = CHR ''-'' then
        (case (digits_val (take 4 s) 0, digits_val (take 2 (drop 5 s)) 0,
               digits_val (drop 8 s) 0) of
           (Some y, Some m, Some d) \<Rightarrow>
             if 1 \<le> m \<and> m \<le> 12 \<and> 1 \<le> d \<and> d \<le> days_in_month y m
             then Some (days_from_civil y m d * 86400000) else None
         | _ \<Rightarrow> None)
      else None)"

text \<open>An environment that gives the same three answers to every request.\<close>
definition fixed_env ::
  "schedule_data response \<Rightarrow> league_data response \<Rightarrow> simulate_data response \<Rightarrow> env" where
  "fixed_env s l g =
     \<lparr>team_schedule = (\<lambda>_. s), advance_league = (\<lambda>_ _. l), simulate_game = (\<lambda>_. g),
      season_report = (\<lambda>_ _. Transport_error), date_ms = iso_date_ms\<rparr>"

text \<open>A schedule entry of Boston that is not played yet, and one that is decided.\<close>
definition open_game :: "string \<Rightarrow> string \<Rightarrow> team_id \<Rightarrow> team_id \<Rightarrow> game" where
  "open_game gid d h a =
     \<lparr>game_id = gid, date = d, home_team_id = h, away_team_id = a,
      home_score = None, away_score = None, result_for_user_team = None\<rparr>"

definition decided_game :: "string \<Rightarrow> string \<Rightarrow> team_id \<Rightarrow> team_id \<Rightarrow> int \<Rightarrow> int \<Rightarrow> string \<Rightarrow> game" where
  "decided_game gid d h a hs as r =
     \<lparr>game_id = gid, date = d, home_team_id = h, away_team_id = a,
      home_score = Some hs, away_score = Some as, result_for_user_team = Some r\<rparr>"

text \<open>The state after Boston is selected on the team screen.\<close>
definition boston_selected :: app_state where
  "boston_selected = selectTeam ''BOS'' initial_state"

text \<open>A state whose schedule for Boston holds the given entries, with the cursor at \<open>c\<close>.\<close>
definition boston_with :: "game list \<Rightarrow> int \<Rightarrow> app_state" where
  "boston_with gs c =
     set_schedule \<lparr>teamId = Some ''BOS'', games = gs, currentIndex = c\<rparr> boston_selected"

definition no_answers :: env where
  "no_answers = fixed_env Transport_error Transport_error Transport_error"

text \<open>Two entries, both decided; the same with the second one open; gaps of one and four days.\<close>
definition two_decided :: "game list" where
  "two_decided = [decided_game ''g1'' ''2025-10-21'' ''BOS'' ''LAL'' 100 90 ''W'',
                  decided_game ''g2'' ''2025-10-23'' ''NYK'' ''BOS'' 101 99 ''L'']"

definition one_open :: "game list" where
  "one_open = [decided_game ''g1'' ''2025-10-21'' ''BOS'' ''LAL'' 100 90 ''W'',
               open_game ''g2'' ''2025-10-23'' ''NYK'' ''BOS'']"

definition back_to_back :: "game list" where
  "back_to_back = [decided_game ''g1'' ''2025-10-21'' ''BOS'' ''LAL'' 100 90 ''W'',
                   open_game ''g2'' ''2025-10-22'' ''NYK'' ''BOS'']"

definition four_day_gap :: "game list" where
  "four_day_gap = [decided_game ''g1'' ''2025-10-21'' ''BOS'' ''LAL'' 100 90 ''W'',
                   open_game ''g2'' ''2025-10-25'' ''NYK'' ''BOS'']"

text \<open>
  A play-in conference: seven against eight is resolved; Boston plays in nine against ten
  and is also entered in the final, both without a result.
\<close>
definition east_play_in :: play_in_conf where
  "east_play_in =
     \<lparr>participants = [Some \<lparr>team_id_of = ''MIA''\<rparr>, Some \<lparr>team_id_of = ''ATL''\<rparr>,
                      Some \<lparr>team_id_of = ''BOS''\<rparr>, Some \<lparr>team_id_of = ''CHI''\<rparr>],
      matchups = Some
        [''seven_vs_eight'' \<mapsto>
           \<lparr>home = Some \<lparr>team_id_of = ''MIA''\<rparr>, away = Some \<lparr>team_id_of = ''ATL''\<rparr>,
            result = Some \<lparr>winner = ''MIA''\<rparr>\<rparr>,
         ''nine_vs_ten'' \<mapsto>
           \<lparr>home = Some \<lparr>team_id_of = ''BOS''\<rparr>, away = Some \<lparr>team_id_of = ''CHI''\<rparr>,
            result = None\<rparr>,
         ''final'' \<mapsto>
           \<lparr>home = Some \<lparr>team_id_of = ''ATL''\<rparr>, away = Some \<lparr>team_id_of = ''BOS''\<rparr>,
            result = None\<rparr>]\<rparr>"

definition two_open :: "game list" where
  "two_open = [open_game ''g1'' ''2025-10-21'' ''BOS'' ''LAL'',
               open_game ''g2'' ''2025-10-23'' ''NYK'' ''BOS'']"

text \<open>Simulator answers: Boston wins; only the Lakers' score is present and it is 0.\<close>
definition boston_wins :: simulate_data where
  "boston_wins = \<lparr>final_score = Some [''BOS'' \<mapsto> 110, ''LAL'' \<mapsto> 102]\<rparr>"

definition lakers_only :: simulate_data where
  "lakers_only = \<lparr>final_score = Some [''LAL'' \<mapsto> 0]\<rparr>"

text \<open>An environment where only the simulator answers.\<close>
definition engine_says :: "simulate_data \<Rightarrow> env" where
  "engine_says d = fixed_env Transport_error Transport_error (Ok d)"



text \<open>Boston is selected and its pace is set to 2 on the tactics tab.\<close>
definition boston_fast :: app_state where
  "boston_fast = on_pace_input 2 boston_selected"

text \<open>
  Boston's two-game schedule with the teams list and the standings already loaded at
  time \<open>t0\<close>, and that state after Boston's first game is applied.
\<close>
definition caches_loaded :: app_state where
  "caches_loaded =
     fst (loadStandingsIfNeeded False
            (Ok \<lparr>data_east = Some [''BOS 0-0''], data_west = Some [''LAL 0-0'']\<rparr>) ''t0''
       (fst (loadTeamsListIfNeeded False (Ok (Some [''BOS 0-0'', ''LAL 0-0''])) ''t0''
          (boston_with two_open 0))))"

definition after_first_game :: app_state where
  "after_first_game = fst (snd (simulateGameProgress (engine_says boston_wins) caches_loaded))"

text \<open>A play-in state of two conferences; Boston is in the east.\<close>
definition west_play_in :: play_in_conf where
  "west_play_in =
     \<lparr>participants = [Some \<lparr>team_id_of = ''LAL''\<rparr>, Some \<lparr>team_id_of = ''GSW''\<rparr>,
                      Some \<lparr>team_id_of = ''SAC''\<rparr>, Some \<lparr>team_id_of = ''HOU''\<rparr>],
      matchups = Some
        [''seven_vs_eight'' \<mapsto>
           \<lparr>home = Some \<lparr>team_id_of = ''LAL''\<rparr>, away = Some \<lparr>team_id_of = ''GSW''\<rparr>,
            result = None\<rparr>]\<rparr>"

definition play_in_state :: "(string \<times> play_in_conf) list" where
  "play_in_state = [(''west'', west_play_in), (''east'', east_play_in)]"

text \<open>
  An environment where the schedule request returns Boston's two open games and the
  simulator rejects the request.
\<close>
definition load_then_engine_down :: env where
  "load_then_engine_down =
     fixed_env (Ok \<lparr>data_games = Some two_open\<rparr>) Transport_error
       (Not_ok ''engine unavailable'')"

abbreviation sched :: "app_state \<Rightarrow> schedule_view" where
  "sched st \<equiv> schedule (cachedViews st)"

text \<open>
  The parts of the state that only the writes after a successful simulator answer touch:
  the turn counter, the id of the latest turn, the news list and the four marker-gated
  caches.
\<close>
definition applied_fields ::
  "app_state \<Rightarrow> int \<times> turn_id option \<times> news_item list \<times> stats_view \<times> standings_view
     \<times> teams_view \<times> weeklyNews_view" where
  "applied_fields st =
     (progressTurns st, last_progress_turn_id (cachedViews st), news (cachedViews st),
      stats (cachedViews st), standings (cachedViews st), teams (cachedViews st),
      weeklyNews (cachedViews st))"

section \<open>Proofs\<close>

lemma first_index_from_Some:
  "first_index_from P xs k = Some i \<Longrightarrow>
     k \<le> i \<and> i - k < length xs \<and> P (xs ! (i - k)) \<and> (\<forall>j < i - k. \<not> P (xs ! j))"
proof (induction xs arbitrary: k)
  case Nil
  then show ?case by simp
next
  case (Cons x xs)
  show ?case
  proof (cases "P x")
    case True
    with Cons.prems show ?thesis by simp
  next
    case False
    with Cons.prems have r: "first_index_from P xs (Suc k) = Some i" by simp
    from Cons.IH[OF r] have a: "Suc k \<le> i" and b: "i - Suc k < length xs"
      and c: "P (xs ! (i - Suc k))" and d: "\<forall>j < i - Suc k. \<not> P (xs ! j)" by auto
    from a have e: "i - k = Suc (i - Suc k)" by arith
    have "\<forall>j < i - k. \<not> P ((x # xs) ! j)"
    proof (intro allI impI)
      fix j assume "j < i - k"
      then show "\<not> P ((x # xs) ! j)" using False d e by (cases j) auto
    qed
    with a b c e show ?thesis by simp
  qed
qed

lemma first_index_from_None:
  "first_index_from P xs k = None \<longleftrightarrow> (\<forall>x \<in> set xs. \<not> P x)"
  by (induction xs arbitrary: k) auto

lemma copy_game_same: "copy_game g = g"
  by (simp add: copy_game_def)

lemma map_copy_game: "map copy_game gs = gs"
  by (induction gs) (simp_all add: copy_game_same)

lemma sched_set_schedule: "schedule (cachedViews (set_schedule s st)) = s"
  by (simp add: set_schedule_def)

lemma sched_set_scores: "schedule (cachedViews (set_scores s st)) = schedule (cachedViews st)"
  by (simp add: set_scores_def)

lemma sched_store_schedule:
  "schedule (cachedViews (store_schedule tid d st)) =
     (let gs = (case data_games d of None \<Rightarrow> [] | Some l \<Rightarrow> l);
          idx = findIndex unplayed gs
      in \<lparr>teamId = Some tid, games = gs,
          currentIndex = (if idx = - 1 then int (length gs) - 1 else idx)\<rparr>)"
  by (simp add: store_schedule_def Let_def map_copy_game sched_set_schedule sched_set_scores
      split: list.splits)

lemma findIndex_found:
  assumes "\<exists>g \<in> set gs. P g"
  shows "0 \<le> findIndex P gs \<and> nat (findIndex P gs) < length gs \<and> P (gs ! nat (findIndex P gs))
         \<and> (\<forall>j < nat (findIndex P gs). \<not> P (gs ! j))"
proof -
  from assms obtain i where i: "first_index_from P gs 0 = Some i"
    using first_index_from_None[of P gs 0] by (cases "first_index_from P gs 0") auto
  from first_index_from_Some[OF i] have "i < length gs" "P (gs ! i)" "\<forall>j < i. \<not> P (gs ! j)"
    by auto
  moreover have "findIndex P gs = int i" using i by (simp add: findIndex_def)
  ultimately show ?thesis by simp
qed

lemma findIndex_none:
  assumes "\<forall>g \<in> set gs. \<not> P g"
  shows "findIndex P gs = - 1"
  using assms first_index_from_None[of P gs 0] by (simp add: findIndex_def)

subsection \<open>C1: where the cursor stands after a load\<close>

text \<open>
  Claim C1, as amended. When \<^verbatim>\<open>generateSeasonSchedule\<close> fetches a schedule (the store did
  not already hold a non-empty schedule of the team, and the request succeeded), the stored
  entries are the fetched ones and: if some entry has both scores unset, the cursor is the
  least index of such an entry; if no entry has both scores unset, the cursor is the
  length of the schedule minus one, that is the index of the last entry (and \<open>-1\<close> for an
  empty schedule), not a value set apart for an exhausted schedule.
\<close>
theorem generateSeasonSchedule_cursor:
  assumes "team_schedule e tid = Ok d"
    and "teamId (sched st) \<noteq> Some tid \<or> games (sched st) = []"
  shows "let sch = sched (fst (generateSeasonSchedule e tid st));
             gs = games sch; c = currentIndex sch
         in gs = (case data_games d of None \<Rightarrow> [] | Some l \<Rightarrow> l) \<and>
            ((\<exists>g \<in> set gs. unplayed g) \<longrightarrow>
               0 \<le> c \<and> nat c < length gs \<and> unplayed (gs ! nat c) \<and>
               (\<forall>j < nat c. \<not> unplayed (gs ! j))) \<and>
            ((\<forall>g \<in> set gs. \<not> unplayed g) \<longrightarrow> c = int (length gs) - 1)"
proof -
  define gs where "gs = (case data_games d of None \<Rightarrow> [] | Some l \<Rightarrow> l)"
  have run: "fst (generateSeasonSchedule e tid st) =
      store_schedule tid d (set_schedule \<lparr>teamId = Some tid, games = [], currentIndex = 0\<rparr> st)"
    using assms by (auto simp add: generateSeasonSchedule_def Let_def)
  have sch: "sched (fst (generateSeasonSchedule e tid st)) =
      \<lparr>teamId = Some tid, games = gs,
       currentIndex = (if findIndex unplayed gs = - 1 then int (length gs) - 1
                       else findIndex unplayed gs)\<rparr>"
    unfolding run by (simp add: sched_store_schedule Let_def gs_def)
  have found: "(\<exists>g \<in> set gs. unplayed g) \<Longrightarrow> findIndex unplayed gs \<noteq> - 1"
    using findIndex_found[of gs unplayed] by auto
  show ?thesis
    unfolding sch Let_def gs_def[symmetric]
    using findIndex_found[of gs unplayed] findIndex_none[of gs unplayed] found
    by auto
qed


lemmas run_simps = generateSeasonSchedule_def store_schedule_def fixed_env_def boston_selected_def
  selectTeam_def TEAMS_def getOrCreateTacticsForTeam_def initial_state_def empty_views_def
  set_schedule_def set_scores_def findIndex_def unplayed_def finished_def copy_game_def
  decided_game_def open_game_def Let_def sort_desc_def

text \<open>
  Claim C1 as stated fails: a fetched schedule of two decided entries leaves the cursor at
  1, the index of an entry whose scores are set, and that is also the cursor of the
  schedule whose second entry is still open. The cursor alone does not tell an exhausted
  schedule from one with a game left.
\<close>
theorem cursor_after_load_not_distinguished:
  "currentIndex (sched (fst (generateSeasonSchedule
      (fixed_env (Ok \<lparr>data_games = Some two_decided\<rparr>) Transport_error Transport_error)
      ''BOS'' boston_selected))) = 1
   \<and> \<not> unplayed (two_decided ! 1)
   \<and> currentIndex (sched (fst (generateSeasonSchedule
      (fixed_env (Ok \<lparr>data_games = Some one_open\<rparr>) Transport_error Transport_error)
      ''BOS'' boston_selected))) = 1
   \<and> unplayed (one_open ! 1)"
  by (simp add: run_simps two_decided_def one_open_def)

text \<open>The amended C1 at Boston's schedule with one decided and one open entry.\<close>
theorem generateSeasonSchedule_cursor_witness:
  "let e = fixed_env (Ok \<lparr>data_games = Some one_open\<rparr>) Transport_error Transport_error;
       sch = sched (fst (generateSeasonSchedule e ''BOS'' boston_selected))
   in team_schedule e ''BOS'' = Ok \<lparr>data_games = Some one_open\<rparr>
      \<and> games (sched boston_selected) = []
      \<and> games sch = one_open \<and> currentIndex sch = 1 \<and> unplayed (one_open ! 1)
      \<and> \<not> unplayed (one_open ! 0)"
proof -
  let ?e = "fixed_env (Ok \<lparr>data_games = Some one_open\<rparr>) Transport_error Transport_error"
  have h1: "team_schedule ?e ''BOS'' = Ok \<lparr>data_games = Some one_open\<rparr>"
    by (simp add: fixed_env_def)
  have h2: "teamId (sched boston_selected) \<noteq> Some ''BOS'' \<or> games (sched boston_selected) = []"
    by (simp add: run_simps)
  have u: "\<exists>g \<in> set one_open. unplayed g"
    by (simp add: one_open_def unplayed_def open_game_def)
  show ?thesis
    using generateSeasonSchedule_cursor[OF h1 h2] h1 h2 u
    by (simp add: run_simps one_open_def)
qed


lemma last_game_date_None:
  "(\<forall>i < n. i < length gs \<longrightarrow> \<not> involves t (gs ! i)) \<Longrightarrow> last_game_date t gs n = None"
  by (induction n) auto

lemma last_game_date_Some:
  "j < n \<Longrightarrow> j < length gs \<Longrightarrow> involves t (gs ! j) \<Longrightarrow>
   (\<forall>i. j < i \<and> i < n \<and> i < length gs \<longrightarrow> \<not> involves t (gs ! i)) \<Longrightarrow>
   last_game_date t gs n = Some (date (gs ! j))"
proof (induction n)
  case 0
  then show ?case by simp
next
  case (Suc n)
  show ?case
  proof (cases "j = n")
    case True
    with Suc.prems show ?thesis by simp
  next
    case False
    with Suc.prems have jn: "j < n" by simp
    have skip: "\<not> (n < length gs \<and> involves t (gs ! n))"
      using Suc.prems(4) jn by auto
    have "last_game_date t gs n = Some (date (gs ! j))"
      using Suc.IH[OF jn Suc.prems(2) Suc.prems(3)] Suc.prems(4) by auto
    with skip show ?thesis by auto
  qed
qed

lemma calcFatigueFactor_table:
  "calcFatigueFactor (Some r) =
     (if r \<le> 0 then 0.92 else if r = 1 then 0.97 else if r = 2 then 1.0
      else if r = 3 then 1.03 else 1.05)"
  by (simp add: calcFatigueFactor_def)

subsection \<open>C7: rest days and the fatigue factor\<close>

text \<open>
  Claim C7, as amended. For a non-empty schedule: when no entry before the cursor involves
  the schedule's team, \<^verbatim>\<open>computeRestDaysForUserTeam\<close> is 3 whatever the dates are. When
  entry \<open>j\<close> is the last one before the cursor that involves the team, the cursor is inside
  the schedule, the date of \<open>j\<close> is not empty and both dates are valid, the result is the
  floor of the difference in days minus one, and at least 0; so a gap of one day gives 0
  rest days and the factor 0.92, a gap of three days gives 2 and 1.00, and a gap of four
  days gives 3 and 1.03 (not 2 and 1.00). The factor is 0.92 for at most 0 rest days, 0.97
  for 1, 1.00 for 2, 1.03 for 3 and 1.05 for 4 or more.
\<close>
theorem rest_days_and_fatigue:
  assumes nonempty: "games (sched st) \<noteq> []"
  shows
   "((\<forall>i. i < length (games (sched st)) \<and> int i < currentIndex (sched st)
          \<longrightarrow> \<not> involves (teamId (sched st)) (games (sched st) ! i))
       \<longrightarrow> computeRestDaysForUserTeam e st = Some 3)
    \<and> (\<forall>j d1 d2.
          int j < currentIndex (sched st) \<and> currentIndex (sched st) < int (length (games (sched st)))
          \<and> involves (teamId (sched st)) (games (sched st) ! j)
          \<and> (\<forall>i. j < i \<and> int i < currentIndex (sched st)
                 \<longrightarrow> \<not> involves (teamId (sched st)) (games (sched st) ! i))
          \<and> date (games (sched st) ! j) \<noteq> []
          \<and> date_ms e (date (games (sched st) ! j)) = Some d1
          \<and> date_ms e (date (games (sched st) ! nat (currentIndex (sched st)))) = Some d2
          \<longrightarrow> computeRestDaysForUserTeam e st = Some (max 0 ((d2 - d1) div 86400000 - 1))
              \<and> (d2 - d1 = 1 * 86400000 \<longrightarrow>
                    computeRestDaysForUserTeam e st = Some 0
                    \<and> calcFatigueFactor (computeRestDaysForUserTeam e st) = 0.92)
              \<and> (d2 - d1 = 3 * 86400000 \<longrightarrow>
                    computeRestDaysForUserTeam e st = Some 2
                    \<and> calcFatigueFactor (computeRestDaysForUserTeam e st) = 1.00)
              \<and> (d2 - d1 = 4 * 86400000 \<longrightarrow>
                    computeRestDaysForUserTeam e st = Some 3
                    \<and> calcFatigueFactor (computeRestDaysForUserTeam e st) = 1.03))
    \<and> (\<forall>r. calcFatigueFactor (Some r) =
              (if r \<le> 0 then 0.92 else if r = 1 then 0.97 else if r = 2 then 1.00
               else if r = 3 then 1.03 else 1.05))"
proof -
  have A: "(\<forall>i. i < length (games (sched st)) \<and> int i < currentIndex (sched st)
          \<longrightarrow> \<not> involves (teamId (sched st)) (games (sched st) ! i))
       \<longrightarrow> computeRestDaysForUserTeam e st = Some 3"
  proof
    assume none: "\<forall>i. i < length (games (sched st)) \<and> int i < currentIndex (sched st)
          \<longrightarrow> \<not> involves (teamId (sched st)) (games (sched st) ! i)"
    have "last_game_date (teamId (sched st)) (games (sched st)) (nat (currentIndex (sched st))) = None"
      by (rule last_game_date_None) (use none in auto)
    then show "computeRestDaysForUserTeam e st = Some 3"
      using nonempty by (simp add: computeRestDaysForUserTeam_def Let_def)
  qed
  have B: "computeRestDaysForUserTeam e st = Some (max 0 ((d2 - d1) div 86400000 - 1))
              \<and> (d2 - d1 = 1 * 86400000 \<longrightarrow>
                    computeRestDaysForUserTeam e st = Some 0
                    \<and> calcFatigueFactor (computeRestDaysForUserTeam e st) = 0.92)
              \<and> (d2 - d1 = 3 * 86400000 \<longrightarrow>
                    computeRestDaysForUserTeam e st = Some 2
                    \<and> calcFatigueFactor (computeRestDaysForUserTeam e st) = 1.00)
              \<and> (d2 - d1 = 4 * 86400000 \<longrightarrow>
                    computeRestDaysForUserTeam e st = Some 3
                    \<and> calcFatigueFactor (computeRestDaysForUserTeam e st) = 1.03)"
    if h: "int j < currentIndex (sched st) \<and> currentIndex (sched st) < int (length (games (sched st)))
          \<and> involves (teamId (sched st)) (games (sched st) ! j)
          \<and> (\<forall>i. j < i \<and> int i < currentIndex (sched st)
                 \<longrightarrow> \<not> involves (teamId (sched st)) (games (sched st) ! i))
          \<and> date (games (sched st) ! j) \<noteq> []
          \<and> date_ms e (date (games (sched st) ! j)) = Some d1
          \<and> date_ms e (date (games (sched st) ! nat (currentIndex (sched st)))) = Some d2"
    for j d1 d2
  proof -
    have "last_game_date (teamId (sched st)) (games (sched st)) (nat (currentIndex (sched st)))
          = Some (date (games (sched st) ! j))"
      by (rule last_game_date_Some) (use h in auto)
    then have rest: "computeRestDaysForUserTeam e st = Some (max 0 ((d2 - d1) div 86400000 - 1))"
      using nonempty h by (simp add: computeRestDaysForUserTeam_def Let_def)
    show ?thesis unfolding rest by (simp add: calcFatigueFactor_def)
  qed
  have C: "calcFatigueFactor (Some r) =
              (if r \<le> 0 then 0.92 else if r = 1 then 0.97 else if r = 2 then 1.00
               else if r = 3 then 1.03 else 1.05)" for r
    by (simp add: calcFatigueFactor_def)
  show ?thesis
    using A B C by blast
qed


lemmas date_simps = iso_date_ms_def digit_of_def days_in_month_def days_from_civil_def

lemmas state_simps = boston_with_def boston_selected_def selectTeam_def TEAMS_def
  getOrCreateTacticsForTeam_def initial_state_def empty_views_def set_schedule_def set_scores_def
  decided_game_def open_game_def Let_def

text \<open>
  Claim C7 as stated fails in its last example: with games on 2025-10-21 and 2025-10-25,
  four days apart, the rest days are 3 and the factor is 1.03, not 2 and 1.00.
\<close>
theorem four_day_gap_gives_three_rest_days:
  "iso_date_ms ''2025-10-21'' = Some 1761004800000
   \<and> iso_date_ms ''2025-10-25'' = Some (1761004800000 + 4 * 86400000)
   \<and> computeRestDaysForUserTeam (fixed_env Transport_error Transport_error Transport_error)
        (boston_with four_day_gap 1) = Some 3
   \<and> calcFatigueFactor (computeRestDaysForUserTeam
        (fixed_env Transport_error Transport_error Transport_error)
        (boston_with four_day_gap 1)) = 1.03
   \<and> computeRestDaysForUserTeam (fixed_env Transport_error Transport_error Transport_error)
        (boston_with four_day_gap 1) \<noteq> Some 2
   \<and> calcFatigueFactor (computeRestDaysForUserTeam
        (fixed_env Transport_error Transport_error Transport_error)
        (boston_with four_day_gap 1)) \<noteq> 1.00"
  by (simp add: computeRestDaysForUserTeam_def calcFatigueFactor_def fixed_env_def four_day_gap_def
      involves_def date_simps state_simps)




text \<open>
  The amended C7 at three schedules of Boston: the first game, a back-to-back game and a
  game four days after the previous one.
\<close>
theorem rest_days_and_fatigue_witness:
  "computeRestDaysForUserTeam no_answers (boston_with back_to_back 0) = Some 3
   \<and> computeRestDaysForUserTeam no_answers (boston_with back_to_back 1) = Some 0
   \<and> calcFatigueFactor (computeRestDaysForUserTeam no_answers (boston_with back_to_back 1)) = 0.92
   \<and> computeRestDaysForUserTeam no_answers (boston_with four_day_gap 1) = Some 3
   \<and> calcFatigueFactor (computeRestDaysForUserTeam no_answers (boston_with four_day_gap 1)) = 1.03"
proof -
  let ?first = "boston_with back_to_back 0"
  let ?b2b = "boston_with back_to_back 1"
  let ?gap4 = "boston_with four_day_gap 1"
  let ?t = "1761004800000 :: int"
  have ne1: "games (sched ?first) \<noteq> []" by (simp add: state_simps back_to_back_def)
  have ne2: "games (sched ?b2b) \<noteq> []" by (simp add: state_simps back_to_back_def)
  have ne3: "games (sched ?gap4) \<noteq> []" by (simp add: state_simps four_day_gap_def)
  have none: "\<forall>i. i < length (games (sched ?first)) \<and> int i < currentIndex (sched ?first)
          \<longrightarrow> \<not> involves (teamId (sched ?first)) (games (sched ?first) ! i)"
    by (auto simp add: state_simps)
  have first: "computeRestDaysForUserTeam no_answers ?first = Some 3"
    using rest_days_and_fatigue[OF ne1, of no_answers, THEN conjunct1] none by blast
  have h2: "int 0 < currentIndex (sched ?b2b)
          \<and> currentIndex (sched ?b2b) < int (length (games (sched ?b2b)))
          \<and> involves (teamId (sched ?b2b)) (games (sched ?b2b) ! 0)
          \<and> (\<forall>i. 0 < i \<and> int i < currentIndex (sched ?b2b)
                 \<longrightarrow> \<not> involves (teamId (sched ?b2b)) (games (sched ?b2b) ! i))
          \<and> date (games (sched ?b2b) ! 0) \<noteq> []
          \<and> date_ms no_answers (date (games (sched ?b2b) ! 0)) = Some ?t
          \<and> date_ms no_answers (date (games (sched ?b2b) ! nat (currentIndex (sched ?b2b))))
              = Some (?t + 1 * 86400000)"
    by (auto simp add: state_simps back_to_back_def involves_def no_answers_def fixed_env_def date_simps)
  have b2b: "computeRestDaysForUserTeam no_answers ?b2b = Some 0
             \<and> calcFatigueFactor (computeRestDaysForUserTeam no_answers ?b2b) = 0.92"
    using rest_days_and_fatigue[OF ne2, of no_answers, THEN conjunct2, THEN conjunct1,
        rule_format, of 0 ?t "?t + 1 * 86400000", OF h2]
    by auto
  have h3: "int 0 < currentIndex (sched ?gap4)
          \<and> currentIndex (sched ?gap4) < int (length (games (sched ?gap4)))
          \<and> involves (teamId (sched ?gap4)) (games (sched ?gap4) ! 0)
          \<and> (\<forall>i. 0 < i \<and> int i < currentIndex (sched ?gap4)
                 \<longrightarrow> \<not> involves (teamId (sched ?gap4)) (games (sched ?gap4) ! i))
          \<and> date (games (sched ?gap4) ! 0) \<noteq> []
          \<and> date_ms no_answers (date (games (sched ?gap4) ! 0)) = Some ?t
          \<and> date_ms no_answers (date (games (sched ?gap4) ! nat (currentIndex (sched ?gap4))))
              = Some (?t + 4 * 86400000)"
    by (auto simp add: state_simps four_day_gap_def involves_def no_answers_def fixed_env_def date_simps)
  have gap4: "computeRestDaysForUserTeam no_answers ?gap4 = Some 3
             \<and> calcFatigueFactor (computeRestDaysForUserTeam no_answers ?gap4) = 1.03"
    using rest_days_and_fatigue[OF ne3, of no_answers, THEN conjunct2, THEN conjunct1,
        rule_format, of 0 ?t "?t + 4 * 86400000", OF h3]
    by auto
  show ?thesis using first b2b gap4 by blast
qed


lemma generateSeasonSchedule_teamId:
  "teamId (sched (fst (generateSeasonSchedule e tid st))) = Some tid"
  by (auto simp add: generateSeasonSchedule_def Let_def sched_set_schedule sched_store_schedule
      split: response.splits)

lemma generateSeasonSchedule_one_fetch:
  "count_list (snd (generateSeasonSchedule e tid st)) (Fetch_team_schedule tid) \<le> 1"
  by (auto simp add: generateSeasonSchedule_def Let_def split: response.splits)

lemma generateSeasonSchedule_loaded:
  "teamId (sched st) = Some tid \<Longrightarrow> games (sched st) \<noteq> [] \<Longrightarrow>
   generateSeasonSchedule e tid st = (st, [])"
  by (simp add: generateSeasonSchedule_def)

subsection \<open>C8: loading twice\<close>

text \<open>
  Claim C8. When the store holds a non-empty schedule of the team, a call of
  \<^verbatim>\<open>generateSeasonSchedule\<close> for that team sends no request and returns the state as it
  is. So when a first call leaves a non-empty schedule, a second call for the same team
  (whatever the server would answer) sends nothing and returns the state of the first
  call, and both calls together send at most one schedule request.
\<close>
theorem generateSeasonSchedule_idempotent:
  "(teamId (sched st) = Some tid \<and> games (sched st) \<noteq> []
      \<longrightarrow> generateSeasonSchedule e tid st = (st, []))
   \<and> (games (sched (fst (generateSeasonSchedule e tid st))) \<noteq> []
      \<longrightarrow> generateSeasonSchedule e' tid (fst (generateSeasonSchedule e tid st))
            = (fst (generateSeasonSchedule e tid st), [])
          \<and> count_list (snd (generateSeasonSchedule e tid st)
                @ snd (generateSeasonSchedule e' tid (fst (generateSeasonSchedule e tid st))))
              (Fetch_team_schedule tid) \<le> 1)"
proof -
  have A: "teamId (sched st) = Some tid \<and> games (sched st) \<noteq> []
      \<longrightarrow> generateSeasonSchedule e tid st = (st, [])"
    by (simp add: generateSeasonSchedule_loaded)
  have B: "generateSeasonSchedule e' tid (fst (generateSeasonSchedule e tid st))
            = (fst (generateSeasonSchedule e tid st), [])
          \<and> count_list (snd (generateSeasonSchedule e tid st)
                @ snd (generateSeasonSchedule e' tid (fst (generateSeasonSchedule e tid st))))
              (Fetch_team_schedule tid) \<le> 1"
    if ne: "games (sched (fst (generateSeasonSchedule e tid st))) \<noteq> []"
  proof -
    have second: "generateSeasonSchedule e' tid (fst (generateSeasonSchedule e tid st))
            = (fst (generateSeasonSchedule e tid st), [])"
      by (rule generateSeasonSchedule_loaded[OF generateSeasonSchedule_teamId ne])
    show ?thesis
      unfolding second using generateSeasonSchedule_one_fetch[of e tid st] by simp
  qed
  show ?thesis using A B by blast
qed

text \<open>C8 at Boston's schedule: the first call fetches, the second does nothing.\<close>
theorem generateSeasonSchedule_idempotent_witness:
  "let e = fixed_env (Ok \<lparr>data_games = Some one_open\<rparr>) Transport_error Transport_error;
       first = generateSeasonSchedule e ''BOS'' boston_selected;
       second = generateSeasonSchedule e ''BOS'' (fst first)
   in games (sched (fst first)) = one_open
      \<and> snd first = [Fetch_team_schedule ''BOS'']
      \<and> second = (fst first, [])
      \<and> count_list (snd first @ snd second) (Fetch_team_schedule ''BOS'') = 1"
proof -
  let ?e = "fixed_env (Ok \<lparr>data_games = Some one_open\<rparr>) Transport_error Transport_error"
  let ?first = "generateSeasonSchedule ?e ''BOS'' boston_selected"
  have g: "games (sched (fst ?first)) = one_open"
    by (simp add: run_simps one_open_def)
  have ev: "snd ?first = [Fetch_team_schedule ''BOS'']"
    by (simp add: run_simps one_open_def)
  have ne: "games (sched (fst ?first)) \<noteq> []"
    unfolding g by (simp add: one_open_def)
  from generateSeasonSchedule_idempotent[of boston_selected "''BOS''" ?e ?e, THEN conjunct2,
      rule_format, OF ne]
  have second: "generateSeasonSchedule ?e ''BOS'' (fst ?first) = (fst ?first, [])"
    by blast
  show ?thesis
    unfolding Let_def second using g ev by simp
qed

lemma scan_play_in_find:
  "my \<noteq> [] \<Longrightarrow>
   scan_play_in (Some my) ms keys =
     find (\<lambda>m. result m = None \<and> plays_in my m) (List.map_filter ms keys)"
  by (induction keys) (auto simp add: List.map_filter_simps split: option.splits)

subsection \<open>C9: the next play-in matchup\<close>

text \<open>
  Claim C9. With a selected team, \<^verbatim>\<open>nextPlayInMatchup\<close> on a conference state is the
  first matchup, in the order seven-against-eight, nine-against-ten, final, that has no
  result and that the selected team plays in. In particular, when seven-against-eight has
  a result and nine-against-ten has none and involves the team, nine-against-ten is
  returned, whatever the final is. The conference that the play-in screen passes to it is
  one of the state's conferences that lists the team among its participants.
\<close>
theorem nextPlayInMatchup_first_open:
  assumes sel: "selectedTeam st = Some u" and ne: "ident u \<noteq> []"
  shows
   "nextPlayInMatchup st (Some c) =
      find (\<lambda>m. result m = None \<and> plays_in (ident u) m)
        (List.map_filter (case matchups c of None \<Rightarrow> Map.empty | Some ms \<Rightarrow> ms)
           [''seven_vs_eight'', ''nine_vs_ten'', ''final''])
    \<and> (\<forall>ms m7 m9.
          matchups c = Some ms
          \<and> ms ''seven_vs_eight'' = Some m7 \<and> result m7 \<noteq> None
          \<and> ms ''nine_vs_ten'' = Some m9 \<and> result m9 = None \<and> plays_in (ident u) m9
          \<longrightarrow> nextPlayInMatchup st (Some c) = Some m9)
    \<and> (\<forall>confs confKey mine.
          findMyPlayInConf st (Some confs) = Some (confKey, mine)
          \<longrightarrow> (confKey, mine) \<in> set confs
              \<and> Some \<lparr>team_id_of = ident u\<rparr> \<in> set (participants mine)
              \<and> myNextPlayInMatchup st (Some confs) = nextPlayInMatchup st (Some mine))"
proof -
  have A: "nextPlayInMatchup st (Some c) =
      find (\<lambda>m. result m = None \<and> plays_in (ident u) m)
        (List.map_filter (case matchups c of None \<Rightarrow> Map.empty | Some ms \<Rightarrow> ms)
           [''seven_vs_eight'', ''nine_vs_ten'', ''final''])"
    using sel
    by (simp add: nextPlayInMatchup_def play_in_order_def scan_play_in_find[OF ne]
        del: scan_play_in.simps)
  have B: "nextPlayInMatchup st (Some c) = Some m9"
    if "matchups c = Some ms
          \<and> ms ''seven_vs_eight'' = Some m7 \<and> result m7 \<noteq> None
          \<and> ms ''nine_vs_ten'' = Some m9 \<and> result m9 = None \<and> plays_in (ident u) m9"
    for ms m7 m9
    unfolding A using that by (auto simp add: List.map_filter_simps)
  have C: "(confKey, mine) \<in> set confs
              \<and> Some \<lparr>team_id_of = ident u\<rparr> \<in> set (participants mine)
              \<and> myNextPlayInMatchup st (Some confs) = nextPlayInMatchup st (Some mine)"
    if f: "findMyPlayInConf st (Some confs) = Some (confKey, mine)"
    for confs confKey mine
  proof -
    from f sel have fd: "find (\<lambda>(confKey, c).
                  list_ex (\<lambda>p. case p of None \<Rightarrow> False | Some q \<Rightarrow> team_id_of q = ident u)
                    (participants c)) confs = Some (confKey, mine)"
      by (simp add: findMyPlayInConf_def)
    then obtain i where i: "i < length confs" "confs ! i = (confKey, mine)"
      and ex: "list_ex (\<lambda>p. case p of None \<Rightarrow> False | Some q \<Rightarrow> team_id_of q = ident u)
                    (participants mine)"
      by (auto simp add: find_Some_iff)
    from i have mem: "(confKey, mine) \<in> set confs"
      by (metis nth_mem)
    from ex obtain p where p: "p \<in> set (participants mine)"
      and q: "case p of None \<Rightarrow> False | Some q \<Rightarrow> team_id_of q = ident u"
      by (auto simp add: list_ex_iff)
    from q obtain q' where "p = Some q'" "team_id_of q' = ident u"
      by (cases p) auto
    then have "p = Some \<lparr>team_id_of = ident u\<rparr>" by (cases q') simp
    with p have part: "Some \<lparr>team_id_of = ident u\<rparr> \<in> set (participants mine)" by simp
    have "myNextPlayInMatchup st (Some confs) = nextPlayInMatchup st (Some mine)"
      using f by (simp add: myNextPlayInMatchup_def)
    with mem part show ?thesis by simp
  qed
  show ?thesis using A B C by blast
qed

text \<open>
  C9 at a state of two conferences where Boston is in the east, in the open
  nine-against-ten matchup and in the open final: nine-against-ten is next.
\<close>
theorem nextPlayInMatchup_first_open_witness:
  "selectedTeam boston_selected = Some \<lparr>ident = ''BOS'', name = ''Boston Celtics''\<rparr>
   \<and> findMyPlayInConf boston_selected (Some play_in_state) = Some (''east'', east_play_in)
   \<and> nextPlayInMatchup boston_selected (Some east_play_in) =
       Some \<lparr>home = Some \<lparr>team_id_of = ''BOS''\<rparr>, away = Some \<lparr>team_id_of = ''CHI''\<rparr>,
             result = None\<rparr>
   \<and> myNextPlayInMatchup boston_selected (Some play_in_state) =
       Some \<lparr>home = Some \<lparr>team_id_of = ''BOS''\<rparr>, away = Some \<lparr>team_id_of = ''CHI''\<rparr>,
             result = None\<rparr>"
proof -
  let ?u = "\<lparr>ident = ''BOS'', name = ''Boston Celtics''\<rparr>"
  let ?m7 = "\<lparr>home = Some \<lparr>team_id_of = ''MIA''\<rparr>, away = Some \<lparr>team_id_of = ''ATL''\<rparr>,
            result = Some \<lparr>winner = ''MIA''\<rparr>\<rparr>"
  let ?m9 = "\<lparr>home = Some \<lparr>team_id_of = ''BOS''\<rparr>, away = Some \<lparr>team_id_of = ''CHI''\<rparr>,
            result = None :: play_in_result option\<rparr>"
  have sel: "selectedTeam boston_selected = Some ?u"
    by (simp add: state_simps)
  have ne: "ident ?u \<noteq> []" by simp
  obtain ms where ms: "matchups east_play_in = Some ms"
    and m7: "ms ''seven_vs_eight'' = Some ?m7" and m9: "ms ''nine_vs_ten'' = Some ?m9"
    by (simp add: east_play_in_def)
  have h: "matchups east_play_in = Some ms
          \<and> ms ''seven_vs_eight'' = Some ?m7 \<and> result ?m7 \<noteq> None
          \<and> ms ''nine_vs_ten'' = Some ?m9 \<and> result ?m9 = None \<and> plays_in (ident ?u) ?m9"
    using ms m7 m9 by (simp add: plays_in_def)
  have mine: "findMyPlayInConf boston_selected (Some play_in_state) = Some (''east'', east_play_in)"
    using sel by (simp add: findMyPlayInConf_def play_in_state_def west_play_in_def east_play_in_def)
  note T = nextPlayInMatchup_first_open[OF sel ne, of east_play_in]
  from T h have nine: "nextPlayInMatchup boston_selected (Some east_play_in) = Some ?m9"
    by blast
  from T mine have "myNextPlayInMatchup boston_selected (Some play_in_state)
      = nextPlayInMatchup boston_selected (Some east_play_in)"
    by blast
  with nine sel mine show ?thesis by simp
qed

subsection \<open>The steps of \<^verbatim>\<open>simulateGameProgress\<close>\<close>

lemma getNext_Some:
  assumes "getNextScheduledGame st = (Some (i, g), st')"
  shows "i < length (games (sched st)) \<and> g = games (sched st) ! i \<and> unplayed g
         \<and> (\<forall>j < i. \<not> unplayed (games (sched st) ! j))
         \<and> st' = set_schedule ((sched st)\<lparr>currentIndex := int i\<rparr>) st"
proof -
  from assms have f: "first_index_from unplayed (games (sched st)) 0 = Some i"
    by (auto simp add: getNextScheduledGame_def Let_def split: option.splits)
  from assms f have g: "g = games (sched st) ! i"
    and s: "st' = set_schedule ((sched st)\<lparr>currentIndex := int i\<rparr>) st"
    by (auto simp add: getNextScheduledGame_def Let_def)
  from first_index_from_Some[OF f] g s show ?thesis by simp
qed

lemma getNext_None:
  assumes "getNextScheduledGame st = (None, st')"
  shows "st' = st \<and> (\<forall>g \<in> set (games (sched st)). \<not> unplayed g)"
proof -
  from assms have f: "first_index_from unplayed (games (sched st)) 0 = None"
    by (auto simp add: getNextScheduledGame_def Let_def split: option.splits)
  with assms have "st' = st" by (simp add: getNextScheduledGame_def Let_def)
  with f show ?thesis by (simp add: first_index_from_None)
qed

lemma foldl_push:
  "foldl (\<lambda>acc g. Decided (league_entry g) # acc) old sim
     = map Decided (rev (map league_entry sim)) @ old"
  by (induction sim arbitrary: old) auto

lemma set_scores_same: "set_scores (scores (cachedViews st)) st = st"
  by (simp add: set_scores_def)

lemma advance_league_step_state:
  "\<exists>ld new. fst (advance_league_step e d u st) =
      set_scores \<lparr>latest_date = ld,
                  score_games = map Decided new @ score_games (scores (cachedViews st))\<rparr> st"
proof (cases "advance_league e d u")
  case (Ok dat)
  then have "fst (advance_league_step e d u st) = merge_league dat st"
    by (simp add: advance_league_step_def)
  then show ?thesis
    unfolding merge_league_def Let_def foldl_push by blast
next
  case Transport_error
  then have "fst (advance_league_step e d u st) = st"
    by (simp add: advance_league_step_def)
  moreover have "st = set_scores \<lparr>latest_date = latest_date (scores (cachedViews st)),
                  score_games = map Decided [] @ score_games (scores (cachedViews st))\<rparr> st"
    by (simp add: set_scores_def)
  ultimately show ?thesis by metis
next
  case (Not_ok m)
  then have "fst (advance_league_step e d u st) = st"
    by (simp add: advance_league_step_def)
  moreover have "st = set_scores \<lparr>latest_date = latest_date (scores (cachedViews st)),
                  score_games = map Decided [] @ score_games (scores (cachedViews st))\<rparr> st"
    by (simp add: set_scores_def)
  ultimately show ?thesis by metis
qed

lemma buildTacticsForTeam_state:
  "\<exists>tb. snd (buildTacticsForTeam tid f st) = st\<lparr>tacticsByTeam := tb\<rparr>"
proof -
  have same: "\<exists>tb. st = st\<lparr>tacticsByTeam := tb\<rparr>"
    by (rule exI[of _ "tacticsByTeam st"]) simp
  show ?thesis
    unfolding buildTacticsForTeam_def getOrCreateTacticsForTeam_def Let_def
    using same by (auto split: option.splits)
qed


lemma play_game_cases:
  assumes run: "play_game e u i g st = (r, st', ev)"
  shows "\<exists>ld new tb.
     (r = Failed
        \<and> st' = (set_scores \<lparr>latest_date = ld,
               score_games = map Decided new @ score_games (scores (cachedViews st))\<rparr> st)
               \<lparr>tacticsByTeam := tb\<rparr>
        \<and> (Alert Match_engine_error \<in> set ev \<or> (\<exists>msg. Alert (Match_engine_rejected msg) \<in> set ev)))
     \<or> (\<exists>req d. simulate_game e req = Ok d \<and> Fetch_simulate_game req \<in> set ev
        \<and> (r, st') = apply_result u (team_or_default (home_team_id g))
             (team_or_default (away_team_id g)) i g d
             ((set_scores \<lparr>latest_date = ld,
               score_games = map Decided new @ score_games (scores (cachedViews st))\<rparr> st)
               \<lparr>tacticsByTeam := tb\<rparr>))"
proof -
  let ?home = "team_or_default (home_team_id g)"
  let ?away = "team_or_default (away_team_id g)"
  define st1 where "st1 = fst (advance_league_step e (date g) (ident u) st)"
  define ev1 where "ev1 = snd (advance_league_step e (date g) (ident u) st)"
  define ff where "ff = calcFatigueFactor (computeRestDaysForUserTeam e st1)"
  define b1 where "b1 = buildTacticsForTeam (ident ?home)
                          (if ident u = ident ?home then ff else 1.0) st1"
  define b2 where "b2 = buildTacticsForTeam (ident ?away)
                          (if ident u \<noteq> ident ?home then ff else 1.0) (snd b1)"
  define req where "req = (\<lambda>ht awt. \<lparr>req_home_team_id = ident ?home, req_away_team_id = ident ?away,
                              home_tactics = ht, away_tactics = awt, game_date = date g\<rparr>)"
  obtain ld new where a: "st1 = set_scores \<lparr>latest_date = ld,
               score_games = map Decided new @ score_games (scores (cachedViews st))\<rparr> st"
    unfolding st1_def using advance_league_step_state by blast
  obtain tb1 where t1: "snd b1 = st1\<lparr>tacticsByTeam := tb1\<rparr>"
    unfolding b1_def using buildTacticsForTeam_state by blast
  obtain tb2 where "snd b2 = (snd b1)\<lparr>tacticsByTeam := tb2\<rparr>"
    unfolding b2_def using buildTacticsForTeam_state by blast
  with t1 have t2: "snd b2 = st1\<lparr>tacticsByTeam := tb2\<rparr>" by simp
  have pg: "play_game e u i g st =
      (case fst b1 of
         None \<Rightarrow> (Failed, snd b1, ev1 @ [Alert Match_engine_error])
       | Some ht \<Rightarrow>
          (case fst b2 of
             None \<Rightarrow> (Failed, snd b2, ev1 @ [Alert Match_engine_error])
           | Some awt \<Rightarrow>
              (case simulate_game e (req ht awt) of
                 Transport_error \<Rightarrow>
                   (Failed, snd b2, ev1 @ [Fetch_simulate_game (req ht awt), Alert Match_engine_error])
               | Not_ok msg \<Rightarrow>
                   (Failed, snd b2,
                    ev1 @ [Fetch_simulate_game (req ht awt), Alert (Match_engine_rejected msg)])
               | Ok d \<Rightarrow>
                   (fst (apply_result u ?home ?away i g d (snd b2)),
                    snd (apply_result u ?home ?away i g d (snd b2)),
                    ev1 @ [Fetch_simulate_game (req ht awt)]))))"
    unfolding play_game_def Let_def st1_def ev1_def ff_def b1_def b2_def req_def
    by (simp add: split_beta split: option.splits response.splits)
  show ?thesis
  proof (cases "fst b1")
    case None
    with run pg have "r = Failed" "st' = snd b1" "Alert Match_engine_error \<in> set ev" by auto
    with t1 a show ?thesis by blast
  next
    case h: (Some ht)
    show ?thesis
    proof (cases "fst b2")
      case None
      with run pg h have "r = Failed" "st' = snd b2" "Alert Match_engine_error \<in> set ev" by auto
      with t2 a show ?thesis by blast
    next
      case aw: (Some awt)
      show ?thesis
      proof (cases "simulate_game e (req ht awt)")
        case Transport_error
        with run pg h aw have "r = Failed" "st' = snd b2" "Alert Match_engine_error \<in> set ev"
          by auto
        with t2 a show ?thesis by blast
      next
        case (Not_ok msg)
        with run pg h aw have "r = Failed" "st' = snd b2"
          "Alert (Match_engine_rejected msg) \<in> set ev"
          by auto
        with t2 a show ?thesis by blast
      next
        case (Ok d)
        with run pg h aw have "(r, st') = apply_result u ?home ?away i g d (snd b2)"
          and fetched: "Fetch_simulate_game (req ht awt) \<in> set ev"
          by auto
        then have "(r, st') = apply_result u ?home ?away i g d
             ((set_scores \<lparr>latest_date = ld,
               score_games = map Decided new @ score_games (scores (cachedViews st))\<rparr> st)
               \<lparr>tacticsByTeam := tb2\<rparr>)"
          using t2 a by simp
        with Ok fetched show ?thesis by blast
      qed
    qed
  qed
qed


lemma applied_fields_simps:
  "applied_fields (set_schedule sch st) = applied_fields st"
  "applied_fields (set_scores sc st) = applied_fields st"
  "applied_fields (st\<lparr>tacticsByTeam := tb\<rparr>) = applied_fields st"
  "applied_fields (st\<lparr>currentDate := cd\<rparr>) = applied_fields st"
  "applied_fields (handleSeasonReportGenerated rep st) = applied_fields st"
  by (simp_all add: applied_fields_def set_schedule_def set_scores_def
      handleSeasonReportGenerated_def)



lemma season_complete_result:
  "fst (season_complete e st) = No_more_regular_season"
  by (simp add: season_complete_def Let_def split: option.splits response.splits prod.splits)

lemma applied_fields_season_complete:
  "applied_fields (fst (snd (season_complete e st))) = applied_fields st"
  by (simp add: season_complete_def Let_def applied_fields_simps
      split: option.splits response.splits prod.splits)

lemma sched_season_complete:
  "sched (fst (snd (season_complete e st))) = sched st"
  by (simp add: season_complete_def Let_def handleSeasonReportGenerated_def
      split: option.splits response.splits prod.splits)

lemma selectedTeam_simps:
  "selectedTeam (set_schedule sch st) = selectedTeam st"
  "selectedTeam (set_scores sc st) = selectedTeam st"
  by (simp_all add: set_schedule_def set_scores_def)

lemma selectedTeam_store_schedule:
  "selectedTeam (store_schedule tid d st) = selectedTeam st"
  by (simp add: store_schedule_def Let_def selectedTeam_simps split: list.splits)

lemma selectedTeam_generate:
  "selectedTeam (fst (generateSeasonSchedule e tid st)) = selectedTeam st"
  by (simp add: generateSeasonSchedule_def Let_def selectedTeam_simps
      selectedTeam_store_schedule split: response.splits)

text \<open>The state and the requests before the next game is looked up (lines 229-238).\<close>
lemma simulateGameProgress_unfold:
  "simulateGameProgress e st =
     (let u = (case selectedTeam st of None \<Rightarrow> hd TEAMS | Some t \<Rightarrow> t);
          tid = (case teamId (sched st) of
                   None \<Rightarrow> ident u
                 | Some t \<Rightarrow> if t = [] then ident u else t);
          st1 = set_schedule ((sched st)\<lparr>teamId := Some tid\<rparr>) st;
          p = (if games (sched st) = [] then generateSeasonSchedule e tid st1 else (st1, []));
          n = getNextScheduledGame (fst p)
      in case fst n of
           None \<Rightarrow>
             (fst (season_complete e (snd n)), fst (snd (season_complete e (snd n))),
              snd p @ snd (snd (season_complete e (snd n))))
         | Some (i, g) \<Rightarrow>
             (fst (play_game e u i g (snd n)), fst (snd (play_game e u i g (snd n))),
              snd p @ snd (snd (play_game e u i g (snd n)))))"
  by (simp add: simulateGameProgress_def Let_def split_beta split: option.splits prod.splits)


lemma ident_team_or_default: "ident (team_or_default x) = x"
  by (auto simp add: team_or_default_def find_Some_iff split: option.splits)

lemma apply_result_facts:
  assumes "apply_result u h a i g d pre = (r, st')"
  shows "sched st' = (sched pre)\<lparr>games := (games (sched pre))
            [i := g\<lparr>home_score := Some (score_of d (ident h)),
                    away_score := Some (score_of d (ident a)),
                    result_for_user_team :=
                      Some (if (if ident u = ident h then score_of d (ident h) else score_of d (ident a))
                               > (if ident u = ident h then score_of d (ident a) else score_of d (ident h))
                            then ''W'' else ''L'')\<rparr>]\<rparr>"
    and "\<exists>x. r = Success x \<and> r_game_id x = game_id g
           \<and> r_home_score x = score_of d (ident h) \<and> r_away_score x = score_of d (ident a)
           \<and> r_result_for_user_team x =
               Some (if (if ident u = ident h then score_of d (ident h) else score_of d (ident a))
                        > (if ident u = ident h then score_of d (ident a) else score_of d (ident h))
                     then ''W'' else ''L'')"
  using assms by (auto simp add: apply_result_def Let_def)

lemma simulateGameProgress_Success:
  assumes run: "simulateGameProgress e st = (Success x, st', ev)"
  shows "\<exists>i g d req gs.
      i < length gs \<and> g = gs ! i \<and> unplayed g \<and> (\<forall>j < i. \<not> unplayed (gs ! j))
      \<and> simulate_game e req = Ok d \<and> Fetch_simulate_game req \<in> set ev
      \<and> currentIndex (sched st') = int i
      \<and> games (sched st') =
          gs[i := g\<lparr>home_score := Some (score_of d (home_team_id g)),
                    away_score := Some (score_of d (away_team_id g)),
                    result_for_user_team :=
                      Some (if (if ident (case selectedTeam st of None \<Rightarrow> hd TEAMS | Some t \<Rightarrow> t)
                                     = home_team_id g
                                then score_of d (home_team_id g) else score_of d (away_team_id g))
                               > (if ident (case selectedTeam st of None \<Rightarrow> hd TEAMS | Some t \<Rightarrow> t)
                                     = home_team_id g
                                  then score_of d (away_team_id g) else score_of d (home_team_id g))
                            then ''W'' else ''L'')\<rparr>]
      \<and> r_game_id x = game_id g
      \<and> r_home_score x = score_of d (home_team_id g)
      \<and> r_away_score x = score_of d (away_team_id g)
      \<and> r_result_for_user_team x = result_for_user_team (games (sched st') ! i)
      \<and> lastLoaded (stats (cachedViews st')) = None
      \<and> lastLoaded (standings (cachedViews st')) = None
      \<and> lastLoaded (teams (cachedViews st')) = None
      \<and> lastLoaded (weeklyNews (cachedViews st')) = None"
proof -
  define u where "u = (case selectedTeam st of None \<Rightarrow> hd TEAMS | Some t \<Rightarrow> t)"
  define tid where "tid = (case teamId (sched st) of
                   None \<Rightarrow> ident u
                 | Some t \<Rightarrow> if t = [] then ident u else t)"
  define st1 where "st1 = set_schedule ((sched st)\<lparr>teamId := Some tid\<rparr>) st"
  define p where "p = (if games (sched st) = [] then generateSeasonSchedule e tid st1 else (st1, []))"
  define n where "n = getNextScheduledGame (fst p)"
  have unf: "simulateGameProgress e st =
      (case fst n of
           None \<Rightarrow>
             (fst (season_complete e (snd n)), fst (snd (season_complete e (snd n))),
              snd p @ snd (snd (season_complete e (snd n))))
         | Some (i, g) \<Rightarrow>
             (fst (play_game e u i g (snd n)), fst (snd (play_game e u i g (snd n))),
              snd p @ snd (snd (play_game e u i g (snd n)))))"
    unfolding simulateGameProgress_unfold Let_def u_def tid_def st1_def p_def n_def ..
  from run unf obtain i g where some: "fst n = Some (i, g)"
    by (cases "fst n") (auto simp add: season_complete_result)
  with run unf have pg: "play_game e u i g (snd n)
      = (Success x, st', snd (snd (play_game e u i g (snd n))))"
    and evs: "ev = snd p @ snd (snd (play_game e u i g (snd n)))"
    by (auto simp add: prod_eq_iff)
  from some have nx: "getNextScheduledGame (fst p) = (Some (i, g), snd n)"
    unfolding n_def by (simp add: prod_eq_iff)
  from getNext_Some[OF nx] have il: "i < length (games (sched (fst p)))"
    and g: "g = games (sched (fst p)) ! i" and un: "unplayed g"
    and before: "\<forall>j < i. \<not> unplayed (games (sched (fst p)) ! j)"
    and sn: "snd n = set_schedule ((sched (fst p))\<lparr>currentIndex := int i\<rparr>) (fst p)"
    by auto
  from play_game_cases[OF pg] obtain ld new tb req d where
    ok: "simulate_game e req = Ok d"
    and fetched: "Fetch_simulate_game req \<in> set (snd (snd (play_game e u i g (snd n))))"
    and ap: "(Success x, st') = apply_result u (team_or_default (home_team_id g))
             (team_or_default (away_team_id g)) i g d
             ((set_scores \<lparr>latest_date = ld,
               score_games = map Decided new @ score_games (scores (cachedViews (snd n)))\<rparr> (snd n))
               \<lparr>tacticsByTeam := tb\<rparr>)"
    by auto
  let ?pre = "(set_scores \<lparr>latest_date = ld,
               score_games = map Decided new @ score_games (scores (cachedViews (snd n)))\<rparr> (snd n))
               \<lparr>tacticsByTeam := tb\<rparr>"
  have spre: "sched ?pre = (sched (fst p))\<lparr>currentIndex := int i\<rparr>"
    unfolding sn by (simp add: set_scores_def set_schedule_def)
  note facts = apply_result_facts[OF ap[symmetric], unfolded ident_team_or_default spre]
  from facts(1) have cur: "currentIndex (sched st') = int i"
    and gs: "games (sched st') = (games (sched (fst p)))
            [i := g\<lparr>home_score := Some (score_of d (home_team_id g)),
                    away_score := Some (score_of d (away_team_id g)),
                    result_for_user_team :=
                      Some (if (if ident u = home_team_id g
                                then score_of d (home_team_id g) else score_of d (away_team_id g))
                               > (if ident u = home_team_id g
                                  then score_of d (away_team_id g) else score_of d (home_team_id g))
                            then ''W'' else ''L'')\<rparr>]"
    by simp_all
  from facts(2) have rx: "r_game_id x = game_id g"
    "r_home_score x = score_of d (home_team_id g)"
    "r_away_score x = score_of d (away_team_id g)"
    "r_result_for_user_team x =
               Some (if (if ident u = home_team_id g
                                then score_of d (home_team_id g) else score_of d (away_team_id g))
                               > (if ident u = home_team_id g
                                  then score_of d (away_team_id g) else score_of d (home_team_id g))
                     then ''W'' else ''L'')"
    by auto
  have res: "r_result_for_user_team x = result_for_user_team (games (sched st') ! i)"
    unfolding gs rx using il by simp
  have fe: "Fetch_simulate_game req \<in> set ev" using fetched evs by simp
  have mk: "lastLoaded (stats (cachedViews st')) = None"
    "lastLoaded (standings (cachedViews st')) = None"
    "lastLoaded (teams (cachedViews st')) = None"
    "lastLoaded (weeklyNews (cachedViews st')) = None"
    using ap[symmetric] by (auto simp add: apply_result_def Let_def)
  show ?thesis
    using il g un before ok fe cur gs[unfolded u_def] rx(1,2,3) res mk by blast
qed

lemmas sim_simps = simulateGameProgress_def play_game_def getNextScheduledGame_def
  advance_league_step_def merge_league_def league_entry_def
  computeRestDaysForUserTeam_def calcFatigueFactor_def
  buildTacticsForTeam_def getOrCreateTacticsForTeam_def project_tactics_def getDefaultTactics_def
  normalizeWeight_def apply_result_def team_or_default_def score_of_def involves_def
  generateSeasonSchedule_def store_schedule_def findIndex_def finished_def copy_game_def
  sort_desc_def season_complete_def
  engine_says_def fixed_env_def unplayed_def state_simps

subsection \<open>C2: the cursor and the result after a game is applied\<close>

text \<open>
  Claim C2, as amended. When \<^verbatim>\<open>simulateGameProgress\<close> applies a result (it returns the
  success object), the cursor is still the index of the entry that was just played: that
  entry now holds the two returned scores, no entry up to it is unplayed, and its
  \<^verbatim>\<open>result_for_user_team\<close> is \<^verbatim>\<open>"W"\<close> if and only if the score of the user's side (the home
  score when the user's team is the home team, the away score otherwise) is strictly
  greater than the other side's. The cursor moves only with the next call of
  \<^verbatim>\<open>getNextScheduledGame\<close>: that call puts it on the least later index with unset scores
  and leaves the entries as they are, or, when no entry is unplayed, returns nothing and
  leaves the state as it is.
\<close>
theorem applied_result_and_cursor:
  assumes run: "simulateGameProgress e st = (Success x, st', ev)"
  shows "let i = nat (currentIndex (sched st'));
             g = games (sched st') ! i;
             u = (case selectedTeam st of None \<Rightarrow> hd TEAMS | Some t \<Rightarrow> t);
             my = (if ident u = home_team_id g then r_home_score x else r_away_score x);
             opp = (if ident u = home_team_id g then r_away_score x else r_home_score x)
         in 0 \<le> currentIndex (sched st') \<and> i < length (games (sched st'))
            \<and> game_id g = r_game_id x
            \<and> home_score g = Some (r_home_score x) \<and> away_score g = Some (r_away_score x)
            \<and> (result_for_user_team g = Some ''W'' \<longleftrightarrow> my > opp)
            \<and> (\<forall>j. j \<le> i \<longrightarrow> \<not> unplayed (games (sched st') ! j))
            \<and> (case getNextScheduledGame st' of
                  (None, st'') \<Rightarrow>
                    st'' = st' \<and> (\<forall>h \<in> set (games (sched st')). \<not> unplayed h)
                | (Some (k, h), st'') \<Rightarrow>
                    i < k \<and> k < length (games (sched st')) \<and> h = games (sched st') ! k
                    \<and> unplayed h \<and> (\<forall>j < k. \<not> unplayed (games (sched st') ! j))
                    \<and> currentIndex (sched st'') = int k
                    \<and> games (sched st'') = games (sched st'))"
proof -
  define u where "u = (case selectedTeam st of None \<Rightarrow> hd TEAMS | Some t \<Rightarrow> t)"
  from simulateGameProgress_Success[OF run] obtain i g d req gs where
    il: "i < length gs" and g: "g = gs ! i" and un: "unplayed g"
    and before: "\<forall>j < i. \<not> unplayed (gs ! j)"
    and cur: "currentIndex (sched st') = int i"
    and gs: "games (sched st') =
          gs[i := g\<lparr>home_score := Some (score_of d (home_team_id g)),
                    away_score := Some (score_of d (away_team_id g)),
                    result_for_user_team :=
                      Some (if (if ident u = home_team_id g
                                then score_of d (home_team_id g) else score_of d (away_team_id g))
                               > (if ident u = home_team_id g
                                  then score_of d (away_team_id g) else score_of d (home_team_id g))
                            then ''W'' else ''L'')\<rparr>]"
    and rx: "r_game_id x = game_id g" "r_home_score x = score_of d (home_team_id g)"
      "r_away_score x = score_of d (away_team_id g)"
    unfolding u_def by blast
  let ?g = "games (sched st') ! i"
  have len: "length (games (sched st')) = length gs" unfolding gs by simp
  have entry: "game_id ?g = r_game_id x" "home_team_id ?g = home_team_id g"
    "home_score ?g = Some (r_home_score x)" "away_score ?g = Some (r_away_score x)"
    "result_for_user_team ?g = Some ''W'' \<longleftrightarrow>
       (if ident u = home_team_id g then r_home_score x else r_away_score x)
        > (if ident u = home_team_id g then r_away_score x else r_home_score x)"
    unfolding gs rx using il by simp_all
  have played: "\<not> unplayed ?g" using entry(3) by (simp add: unplayed_def)
  have upto: "\<forall>j. j \<le> i \<longrightarrow> \<not> unplayed (games (sched st') ! j)"
  proof (intro allI impI)
    fix j assume "j \<le> i"
    show "\<not> unplayed (games (sched st') ! j)"
    proof (cases "j = i")
      case True then show ?thesis using played by simp
    next
      case False
      with \<open>j \<le> i\<close> have "j < i" by simp
      then show ?thesis unfolding gs using before by simp
    qed
  qed
  have nxt: "(case getNextScheduledGame st' of
                  (None, st'') \<Rightarrow>
                    st'' = st' \<and> (\<forall>h \<in> set (games (sched st')). \<not> unplayed h)
                | (Some (k, h), st'') \<Rightarrow>
                    i < k \<and> k < length (games (sched st')) \<and> h = games (sched st') ! k
                    \<and> unplayed h \<and> (\<forall>j < k. \<not> unplayed (games (sched st') ! j))
                    \<and> currentIndex (sched st'') = int k
                    \<and> games (sched st'') = games (sched st'))"
  proof (cases "getNextScheduledGame st'")
    case (Pair a st'')
    show ?thesis
    proof (cases a)
      case None
      with Pair getNext_None[of st' st''] show ?thesis by simp
    next
      case (Some kh)
      obtain k h where kh: "kh = (k, h)" by (cases kh)
      from Pair Some kh have nx: "getNextScheduledGame st' = (Some (k, h), st'')" by simp
      from getNext_Some[OF nx] have a: "k < length (games (sched st'))"
        and b: "h = games (sched st') ! k" and c: "unplayed h"
        and d: "\<forall>j < k. \<not> unplayed (games (sched st') ! j)"
        and e: "st'' = set_schedule ((sched st')\<lparr>currentIndex := int k\<rparr>) st'"
        by auto
      have "i < k"
      proof (rule ccontr)
        assume "\<not> i < k"
        then have "k \<le> i" by simp
        with upto b c show False by simp
      qed
      with a b c d e nx show ?thesis by (simp add: set_schedule_def)
    qed
  qed
  have ni: "nat (currentIndex (sched st')) = i" using cur by simp
  have nonneg: "0 \<le> currentIndex (sched st')" using cur by simp
  show ?thesis
    unfolding Let_def u_def[symmetric] ni
    using nonneg il len entry upto nxt by simp
qed

lemma boston_wins_run:
  "simulateGameProgress (engine_says boston_wins) (boston_with two_open 0)
     = (fst (simulateGameProgress (engine_says boston_wins) (boston_with two_open 0)),
        fst (snd (simulateGameProgress (engine_says boston_wins) (boston_with two_open 0))),
        snd (snd (simulateGameProgress (engine_says boston_wins) (boston_with two_open 0))))"
  "fst (simulateGameProgress (engine_says boston_wins) (boston_with two_open 0))
     = Success \<lparr>r_game_id = ''g1'', r_game_date = ''2025-10-21'',
         r_home_team_id = ''BOS'', r_away_team_id = ''LAL'',
         r_home_team_name = ''Boston Celtics'', r_away_team_name = ''Los Angeles Lakers'',
         r_home_score = 110, r_away_score = 102, r_result_for_user_team = Some ''W'',
         log_entry =
           \<lparr>game_id = ''g1'', date = ''2025-10-21'', home_team_id = ''BOS'',
            away_team_id = ''LAL'', home_score = Some 110, away_score = Some 102,
            home_team_name = ''Boston Celtics'', away_team_name = ''Los Angeles Lakers'',
            status = ''final'', is_overtime = False, top_performers = []\<rparr>\<rparr>"
  "sched (fst (snd (simulateGameProgress (engine_says boston_wins) (boston_with two_open 0))))
     = \<lparr>teamId = Some ''BOS'',
        games = [decided_game ''g1'' ''2025-10-21'' ''BOS'' ''LAL'' 110 102 ''W'',
                 open_game ''g2'' ''2025-10-23'' ''NYK'' ''BOS''],
        currentIndex = 0\<rparr>"
  by (simp_all add: sim_simps two_open_def boston_wins_def)

text \<open>
  Claim C2 as stated fails: after Boston's first game of a two-game schedule is applied,
  the cursor is 0, the index of the entry that now has its scores, while the entry with
  unset scores is at index 1.
\<close>
theorem cursor_stays_on_played_entry:
  "fst (simulateGameProgress (engine_says boston_wins) (boston_with two_open 0))
     = Success \<lparr>r_game_id = ''g1'', r_game_date = ''2025-10-21'',
         r_home_team_id = ''BOS'', r_away_team_id = ''LAL'',
         r_home_team_name = ''Boston Celtics'', r_away_team_name = ''Los Angeles Lakers'',
         r_home_score = 110, r_away_score = 102, r_result_for_user_team = Some ''W'',
         log_entry =
           \<lparr>game_id = ''g1'', date = ''2025-10-21'', home_team_id = ''BOS'',
            away_team_id = ''LAL'', home_score = Some 110, away_score = Some 102,
            home_team_name = ''Boston Celtics'', away_team_name = ''Los Angeles Lakers'',
            status = ''final'', is_overtime = False, top_performers = []\<rparr>\<rparr>
   \<and> currentIndex (sched (fst (snd
         (simulateGameProgress (engine_says boston_wins) (boston_with two_open 0))))) = 0
   \<and> games (sched (fst (snd
         (simulateGameProgress (engine_says boston_wins) (boston_with two_open 0)))))
       = [decided_game ''g1'' ''2025-10-21'' ''BOS'' ''LAL'' 110 102 ''W'',
          open_game ''g2'' ''2025-10-23'' ''NYK'' ''BOS'']
   \<and> \<not> unplayed (decided_game ''g1'' ''2025-10-21'' ''BOS'' ''LAL'' 110 102 ''W'')
   \<and> unplayed (open_game ''g2'' ''2025-10-23'' ''NYK'' ''BOS'')"
  by (simp add: boston_wins_run(2,3)) (simp add: unplayed_def decided_game_def open_game_def)

text \<open>
  The amended C2 at that run: the cursor is 0, entry 0 holds 110-102 and \<^verbatim>\<open>"W"\<close>, and the
  next call of \<^verbatim>\<open>getNextScheduledGame\<close> returns entry 1 and moves the cursor to 1.
\<close>
theorem applied_result_and_cursor_witness:
  "let st' = fst (snd (simulateGameProgress (engine_says boston_wins) (boston_with two_open 0)));
       nxt = getNextScheduledGame st'
   in currentIndex (sched st') = 0
      \<and> home_score (games (sched st') ! 0) = Some 110
      \<and> away_score (games (sched st') ! 0) = Some 102
      \<and> result_for_user_team (games (sched st') ! 0) = Some ''W''
      \<and> fst nxt = Some (1, open_game ''g2'' ''2025-10-23'' ''NYK'' ''BOS'')
      \<and> currentIndex (sched (snd nxt)) = 1"
proof -
  let ?run = "simulateGameProgress (engine_says boston_wins) (boston_with two_open 0)"
  let ?x = "\<lparr>r_game_id = ''g1'', r_game_date = ''2025-10-21'',
         r_home_team_id = ''BOS'', r_away_team_id = ''LAL'',
         r_home_team_name = ''Boston Celtics'', r_away_team_name = ''Los Angeles Lakers'',
         r_home_score = 110, r_away_score = 102, r_result_for_user_team = Some ''W'',
         log_entry =
           \<lparr>game_id = ''g1'', date = ''2025-10-21'', home_team_id = ''BOS'',
            away_team_id = ''LAL'', home_score = Some 110, away_score = Some 102,
            home_team_name = ''Boston Celtics'', away_team_name = ''Los Angeles Lakers'',
            status = ''final'', is_overtime = False, top_performers = []\<rparr>\<rparr>"
  have run: "?run = (Success ?x, fst (snd ?run), snd (snd ?run))"
    using boston_wins_run(1,2) by simp
  have sel: "selectedTeam (boston_with two_open 0) = Some \<lparr>ident = ''BOS'', name = ''Boston Celtics''\<rparr>"
    by (simp add: state_simps)
  let ?st' = "fst (snd ?run)"
  have gs: "games (sched ?st') = [decided_game ''g1'' ''2025-10-21'' ''BOS'' ''LAL'' 110 102 ''W'',
                 open_game ''g2'' ''2025-10-23'' ''NYK'' ''BOS'']"
    and cur: "currentIndex (sched ?st') = 0"
    by (simp_all add: boston_wins_run(3))
  obtain a st'' where pr: "getNextScheduledGame ?st' = (a, st'')"
    by (cases "getNextScheduledGame ?st'")
  note T = applied_result_and_cursor[OF run, unfolded Let_def cur pr]
  have entry: "home_score (games (sched ?st') ! 0) = Some 110"
    "away_score (games (sched ?st') ! 0) = Some 102"
    "result_for_user_team (games (sched ?st') ! 0) = Some ''W''"
    using T sel by (simp_all add: gs decided_game_def)
  have "a \<noteq> None"
  proof
    assume "a = None"
    with T have "\<forall>h \<in> set (games (sched ?st')). \<not> unplayed h" by simp
    then show False unfolding gs by (simp add: unplayed_def open_game_def)
  qed
  then obtain k h where a: "a = Some (k, h)" by (cases a) auto
  with T have k: "0 < k" "k < length (games (sched ?st'))" and h: "h = games (sched ?st') ! k"
    and c: "currentIndex (sched st'') = int k"
    by simp_all
  from k have k1: "k = 1" unfolding gs by simp
  have "fst (getNextScheduledGame ?st') = Some (1, open_game ''g2'' ''2025-10-23'' ''NYK'' ''BOS'')"
    unfolding pr a h k1 gs by simp
  moreover have "currentIndex (sched (snd (getNextScheduledGame ?st'))) = 1"
    unfolding pr using c k1 by simp
  ultimately show ?thesis
    unfolding Let_def using cur entry by simp
qed

subsection \<open>C10: the result is always W or L\<close>

text \<open>
  Claim C10. When \<^verbatim>\<open>simulateGameProgress\<close> applies a result, the entry at the cursor has
  \<^verbatim>\<open>result_for_user_team\<close> equal to \<^verbatim>\<open>"W"\<close> or \<^verbatim>\<open>"L"\<close>, the same value as in the returned
  object; its scores are the simulator's \<^verbatim>\<open>final_score\<close> entries of the home and the away
  team, a missing map or a missing entry counting as 0; and equal scores give \<^verbatim>\<open>"L"\<close>.
\<close>
theorem applied_result_is_W_or_L:
  assumes run: "simulateGameProgress e st = (Success x, st', ev)"
  shows "let g = games (sched st') ! nat (currentIndex (sched st'))
         in (result_for_user_team g = Some ''W'' \<or> result_for_user_team g = Some ''L'')
            \<and> r_result_for_user_team x = result_for_user_team g
            \<and> (\<exists>req d. Fetch_simulate_game req \<in> set ev \<and> simulate_game e req = Ok d
                 \<and> home_score g =
                     Some (case final_score d of
                             None \<Rightarrow> 0
                           | Some m \<Rightarrow> (case m (home_team_id g) of None \<Rightarrow> 0 | Some v \<Rightarrow> v))
                 \<and> away_score g =
                     Some (case final_score d of
                             None \<Rightarrow> 0
                           | Some m \<Rightarrow> (case m (away_team_id g) of None \<Rightarrow> 0 | Some v \<Rightarrow> v)))
            \<and> (home_score g = away_score g \<longrightarrow> result_for_user_team g = Some ''L'')"
proof -
  define u where "u = (case selectedTeam st of None \<Rightarrow> hd TEAMS | Some t \<Rightarrow> t)"
  from simulateGameProgress_Success[OF run] obtain i g d req gs where
    il: "i < length gs" and g: "g = gs ! i"
    and ok: "simulate_game e req = Ok d" and fe: "Fetch_simulate_game req \<in> set ev"
    and cur: "currentIndex (sched st') = int i"
    and gs: "games (sched st') =
          gs[i := g\<lparr>home_score := Some (score_of d (home_team_id g)),
                    away_score := Some (score_of d (away_team_id g)),
                    result_for_user_team :=
                      Some (if (if ident u = home_team_id g
                                then score_of d (home_team_id g) else score_of d (away_team_id g))
                               > (if ident u = home_team_id g
                                  then score_of d (away_team_id g) else score_of d (home_team_id g))
                            then ''W'' else ''L'')\<rparr>]"
    and rx: "r_result_for_user_team x = result_for_user_team (games (sched st') ! i)"
    unfolding u_def by blast
  let ?g = "games (sched st') ! i"
  have ni: "nat (currentIndex (sched st')) = i" using cur by simp
  have ids: "home_team_id ?g = home_team_id g" "away_team_id ?g = away_team_id g"
    unfolding gs using il by simp_all
  have hs: "home_score ?g = Some (score_of d (home_team_id ?g))"
    and as: "away_score ?g = Some (score_of d (away_team_id ?g))"
    unfolding ids unfolding gs using il by simp_all
  have wl: "result_for_user_team ?g = Some ''W'' \<or> result_for_user_team ?g = Some ''L''"
    unfolding gs using il by simp
  have tie: "home_score ?g = away_score ?g \<longrightarrow> result_for_user_team ?g = Some ''L''"
    unfolding gs using il by simp
  have sc: "\<exists>req d. Fetch_simulate_game req \<in> set ev \<and> simulate_game e req = Ok d
                 \<and> home_score ?g =
                     Some (case final_score d of
                             None \<Rightarrow> 0
                           | Some m \<Rightarrow> (case m (home_team_id ?g) of None \<Rightarrow> 0 | Some v \<Rightarrow> v))
                 \<and> away_score ?g =
                     Some (case final_score d of
                             None \<Rightarrow> 0
                           | Some m \<Rightarrow> (case m (away_team_id ?g) of None \<Rightarrow> 0 | Some v \<Rightarrow> v))"
    using fe ok hs as unfolding score_of_def by blast
  show ?thesis
    unfolding Let_def ni using wl rx sc tie by blast
qed

lemma lakers_only_run:
  "simulateGameProgress (engine_says lakers_only) (boston_with two_open 0)
     = (fst (simulateGameProgress (engine_says lakers_only) (boston_with two_open 0)),
        fst (snd (simulateGameProgress (engine_says lakers_only) (boston_with two_open 0))),
        snd (snd (simulateGameProgress (engine_says lakers_only) (boston_with two_open 0))))"
  "fst (simulateGameProgress (engine_says lakers_only) (boston_with two_open 0))
     = Success \<lparr>r_game_id = ''g1'', r_game_date = ''2025-10-21'',
         r_home_team_id = ''BOS'', r_away_team_id = ''LAL'',
         r_home_team_name = ''Boston Celtics'', r_away_team_name = ''Los Angeles Lakers'',
         r_home_score = 0, r_away_score = 0, r_result_for_user_team = Some ''L'',
         log_entry =
           \<lparr>game_id = ''g1'', date = ''2025-10-21'', home_team_id = ''BOS'',
            away_team_id = ''LAL'', home_score = Some 0, away_score = Some 0,
            home_team_name = ''Boston Celtics'', away_team_name = ''Los Angeles Lakers'',
            status = ''final'', is_overtime = False, top_performers = []\<rparr>\<rparr>"
  "sched (fst (snd (simulateGameProgress (engine_says lakers_only) (boston_with two_open 0))))
     = \<lparr>teamId = Some ''BOS'',
        games = [decided_game ''g1'' ''2025-10-21'' ''BOS'' ''LAL'' 0 0 ''L'',
                 open_game ''g2'' ''2025-10-23'' ''NYK'' ''BOS''],
        currentIndex = 0\<rparr>"
  by (simp_all add: sim_simps two_open_def lakers_only_def)

text \<open>
  C10 at an answer that names only the Lakers, with 0 points: Boston's missing score is 0,
  the game is a 0-0 tie and Boston's result is \<^verbatim>\<open>"L"\<close>.
\<close>
theorem applied_result_is_W_or_L_witness:
  "let run = simulateGameProgress (engine_says lakers_only) (boston_with two_open 0);
       g = games (sched (fst (snd run))) ! 0
   in final_score lakers_only = Some [''LAL'' \<mapsto> 0]
      \<and> home_team_id g = ''BOS'' \<and> home_score g = Some 0 \<and> away_score g = Some 0
      \<and> result_for_user_team g = Some ''L''"
proof -
  let ?run = "simulateGameProgress (engine_says lakers_only) (boston_with two_open 0)"
  let ?x = "\<lparr>r_game_id = ''g1'', r_game_date = ''2025-10-21'',
         r_home_team_id = ''BOS'', r_away_team_id = ''LAL'',
         r_home_team_name = ''Boston Celtics'', r_away_team_name = ''Los Angeles Lakers'',
         r_home_score = 0, r_away_score = 0, r_result_for_user_team = Some ''L'',
         log_entry =
           \<lparr>game_id = ''g1'', date = ''2025-10-21'', home_team_id = ''BOS'',
            away_team_id = ''LAL'', home_score = Some 0, away_score = Some 0,
            home_team_name = ''Boston Celtics'', away_team_name = ''Los Angeles Lakers'',
            status = ''final'', is_overtime = False, top_performers = []\<rparr>\<rparr>"
  have run: "?run = (Success ?x, fst (snd ?run), snd (snd ?run))"
    using lakers_only_run(1,2) by simp
  note T = applied_result_is_W_or_L[OF run, unfolded Let_def lakers_only_run(3)]
  from T have "result_for_user_team (games (sched (fst (snd ?run))) ! 0) = Some ''L''"
    unfolding lakers_only_run(3) by (simp add: decided_game_def)
  then show ?thesis
    unfolding Let_def lakers_only_run(3)
    by (simp add: decided_game_def lakers_only_def)
qed

text \<open>
  The apply step is reached whenever the simulator answers: the only other way for a due
  game to fail is a selected team with an empty id.
\<close>
lemma selectedTeam_advance_league_step:
  "selectedTeam (fst (advance_league_step e d u st)) = selectedTeam st"
  by (simp add: advance_league_step_def merge_league_def Let_def selectedTeam_simps
      split: response.splits)

lemma buildTacticsForTeam_Some:
  assumes "selectedTeam st = None \<or> (\<exists>t. selectedTeam st = Some t \<and> ident t \<noteq> [])"
  shows "\<exists>p. fst (buildTacticsForTeam tid f st) = Some p"
    and "selectedTeam (snd (buildTacticsForTeam tid f st)) = selectedTeam st"
  using assms
  by (auto simp add: buildTacticsForTeam_def getOrCreateTacticsForTeam_def Let_def
      split: option.splits)

text \<open>
  When the simulator answers every request and the selected team, if any, has a non-empty
  id, playing a due game ends with the success object.
\<close>
lemma play_game_answered_gives_Success:
  assumes answered: "\<And>req. \<exists>d. simulate_game e req = Ok d"
    and sel: "selectedTeam st = None \<or> (\<exists>t. selectedTeam st = Some t \<and> ident t \<noteq> [])"
  shows "\<exists>x. fst (play_game e u i g st) = Success x"
proof -
  let ?home = "team_or_default (home_team_id g)"
  let ?away = "team_or_default (away_team_id g)"
  define st1 where "st1 = fst (advance_league_step e (date g) (ident u) st)"
  define ev1 where "ev1 = snd (advance_league_step e (date g) (ident u) st)"
  define ff where "ff = calcFatigueFactor (computeRestDaysForUserTeam e st1)"
  define b1 where "b1 = buildTacticsForTeam (ident ?home)
                          (if ident u = ident ?home then ff else 1.0) st1"
  define b2 where "b2 = buildTacticsForTeam (ident ?away)
                          (if ident u \<noteq> ident ?home then ff else 1.0) (snd b1)"
  define req where "req = (\<lambda>ht awt. \<lparr>req_home_team_id = ident ?home, req_away_team_id = ident ?away,
                              home_tactics = ht, away_tactics = awt, game_date = date g\<rparr>)"
  have pg: "play_game e u i g st =
      (case fst b1 of
         None \<Rightarrow> (Failed, snd b1, ev1 @ [Alert Match_engine_error])
       | Some ht \<Rightarrow>
          (case fst b2 of
             None \<Rightarrow> (Failed, snd b2, ev1 @ [Alert Match_engine_error])
           | Some awt \<Rightarrow>
              (case simulate_game e (req ht awt) of
                 Transport_error \<Rightarrow>
                   (Failed, snd b2, ev1 @ [Fetch_simulate_game (req ht awt), Alert Match_engine_error])
               | Not_ok msg \<Rightarrow>
                   (Failed, snd b2,
                    ev1 @ [Fetch_simulate_game (req ht awt), Alert (Match_engine_rejected msg)])
               | Ok d \<Rightarrow>
                   (fst (apply_result u ?home ?away i g d (snd b2)),
                    snd (apply_result u ?home ?away i g d (snd b2)),
                    ev1 @ [Fetch_simulate_game (req ht awt)]))))"
    unfolding play_game_def Let_def st1_def ev1_def ff_def b1_def b2_def req_def
    by (simp add: split_beta split: option.splits response.splits)
  have sel1: "selectedTeam st1 = None \<or> (\<exists>t. selectedTeam st1 = Some t \<and> ident t \<noteq> [])"
    unfolding st1_def using sel by (simp add: selectedTeam_advance_league_step)
  from buildTacticsForTeam_Some[OF sel1] obtain ht where h: "fst b1 = Some ht"
    and s1: "selectedTeam (snd b1) = selectedTeam st1"
    unfolding b1_def by blast
  from sel1 s1 have sel2: "selectedTeam (snd b1) = None
      \<or> (\<exists>t. selectedTeam (snd b1) = Some t \<and> ident t \<noteq> [])"
    by simp
  from buildTacticsForTeam_Some(1)[OF sel2] obtain awt where aw: "fst b2 = Some awt"
    unfolding b2_def by blast
  from answered obtain d where ok: "simulate_game e (req ht awt) = Ok d" by blast
  have res: "fst (play_game e u i g st) = fst (apply_result u ?home ?away i g d (snd b2))"
    unfolding pg by (simp add: h aw ok)
  obtain r st' where ap: "apply_result u ?home ?away i g d (snd b2) = (r, st')"
    by (cases "apply_result u ?home ?away i g d (snd b2)") auto
  from apply_result_facts(2)[OF ap] obtain x where "r = Success x" by blast
  with res ap show ?thesis by simp
qed

subsection \<open>C5: a failed simulator call\<close>












lemma load_then_engine_down_run:
  "fst (simulateGameProgress load_then_engine_down boston_selected) = Failed"
  "snd (snd (simulateGameProgress load_then_engine_down boston_selected))
     = [Fetch_team_schedule ''BOS'',
        Fetch_advance_league ''2025-10-21'' ''BOS'',
        Fetch_simulate_game
          \<lparr>req_home_team_id = ''BOS'', req_away_team_id = ''LAL'',
           home_tactics = Full_payload (project_tactics getDefaultTactics),
           away_tactics = Pace_only 0, game_date = ''2025-10-21''\<rparr>,
        Alert (Match_engine_rejected ''engine unavailable'')]"
  "sched (fst (snd (simulateGameProgress load_then_engine_down boston_selected)))
     = \<lparr>teamId = Some ''BOS'', games = two_open, currentIndex = 0\<rparr>"
  "currentDate (fst (snd (simulateGameProgress load_then_engine_down boston_selected)))
     = Some ''2025-10-21''"
  by (simp_all add: sim_simps two_open_def load_then_engine_down_def)

text \<open>
  The writes of the schedule load stay as well: from the state right after Boston is
  selected, with no schedule and no in-game date, a call that loads the schedule and is
  then rejected by the simulator returns \<^verbatim>\<open>false\<close> and leaves the two fetched entries
  and the in-game date 2025-10-21.
\<close>
lemma load_stays_after_engine_failure:
  "games (sched boston_selected) = [] \<and> currentDate boston_selected = None
   \<and> fst (simulateGameProgress load_then_engine_down boston_selected) = Failed
   \<and> games (sched (fst (snd (simulateGameProgress load_then_engine_down boston_selected))))
       = two_open
   \<and> currentDate (fst (snd (simulateGameProgress load_then_engine_down boston_selected)))
       = Some ''2025-10-21''"
  by (simp add: load_then_engine_down_run) (simp add: state_simps)


subsection \<open>C6: selecting another team\<close>

lemma TEAMS_ident_nonempty: "t \<in> set TEAMS \<Longrightarrow> ident t \<noteq> []"
  by (auto simp add: TEAMS_def)

lemma find_TEAMS:
  assumes "find (\<lambda>t. ident t = tid) TEAMS = Some team"
  shows "ident team = tid \<and> tid \<noteq> []"
proof -
  from assms have "team \<in> set TEAMS" "ident team = tid"
    by (auto simp add: find_Some_iff)
  then show ?thesis using TEAMS_ident_nonempty by blast
qed

text \<open>
  Claim C6, as amended. Selecting a team of \<^verbatim>\<open>TEAMS\<close> makes it the selected team and
  replaces every cached view by its empty state: the schedule is the empty schedule of the
  new team, with the cursor at 0, and the turn counter is 0. The tactics profiles are kept:
  the stored profile of every other team, the previously selected one included, is as it
  was, and the new team keeps the profile it already had, or gets the default profile when
  it had none.
\<close>
theorem selectTeam_resets_schedule_keeps_tactics:
  assumes known: "find (\<lambda>t. ident t = tid) TEAMS = Some team"
  shows "selectedTeam (selectTeam tid st) = Some team
    \<and> cachedViews (selectTeam tid st) = empty_views (Some tid)
    \<and> sched (selectTeam tid st) = \<lparr>teamId = Some tid, games = [], currentIndex = 0\<rparr>
    \<and> progressTurns (selectTeam tid st) = 0
    \<and> (\<forall>other. other \<noteq> tid \<longrightarrow>
          tacticsByTeam (selectTeam tid st) other = tacticsByTeam st other)
    \<and> tacticsByTeam (selectTeam tid st) tid =
        (case tacticsByTeam st tid of None \<Rightarrow> Some getDefaultTactics | Some p \<Rightarrow> Some p)"
proof -
  from find_TEAMS[OF known] have id: "ident team = tid" and ne: "tid \<noteq> []" by simp_all
  show ?thesis
    using known id ne
    by (cases "tacticsByTeam st tid")
       (simp_all add: selectTeam_def getOrCreateTacticsForTeam_def empty_views_def)
qed

lemmas select_simps = boston_fast_def on_pace_input_def boston_selected_def selectTeam_def
  TEAMS_def getOrCreateTacticsForTeam_def initial_state_def empty_views_def

text \<open>
  Claim C6 as stated fails for the tactics profile: with Boston selected and its pace set
  to 2, selecting the Lakers leaves Boston's profile stored with pace 2, not the default,
  and selecting Boston again finds that profile carried over.
\<close>
theorem tactics_survive_team_switch:
  "selectedTeam boston_fast = Some \<lparr>ident = ''BOS'', name = ''Boston Celtics''\<rparr>
   \<and> selectedTeam (selectTeam ''LAL'' boston_fast)
       = Some \<lparr>ident = ''LAL'', name = ''Los Angeles Lakers''\<rparr>
   \<and> tacticsByTeam (selectTeam ''LAL'' boston_fast) ''BOS'' = Some (getDefaultTactics\<lparr>pace := 2\<rparr>)
   \<and> getDefaultTactics\<lparr>pace := 2\<rparr> \<noteq> getDefaultTactics
   \<and> tacticsByTeam (selectTeam ''BOS'' (selectTeam ''LAL'' boston_fast)) ''BOS''
       = Some (getDefaultTactics\<lparr>pace := 2\<rparr>)"
  by (simp add: select_simps) (simp add: getDefaultTactics_def)

text \<open>
  The amended C6 at the switch from Boston (pace 2) to the Lakers: the schedule is the
  Lakers' empty one, Boston's profile is kept, the Lakers get the default profile.
\<close>
theorem selectTeam_resets_schedule_keeps_tactics_witness:
  "find (\<lambda>t. ident t = ''LAL'') TEAMS = Some \<lparr>ident = ''LAL'', name = ''Los Angeles Lakers''\<rparr>
   \<and> sched (selectTeam ''LAL'' boston_fast) = \<lparr>teamId = Some ''LAL'', games = [], currentIndex = 0\<rparr>
   \<and> tacticsByTeam (selectTeam ''LAL'' boston_fast) ''BOS'' = Some (getDefaultTactics\<lparr>pace := 2\<rparr>)
   \<and> tacticsByTeam (selectTeam ''LAL'' boston_fast) ''LAL'' = Some getDefaultTactics"
proof -
  have known: "find (\<lambda>t. ident t = ''LAL'') TEAMS
      = Some \<lparr>ident = ''LAL'', name = ''Los Angeles Lakers''\<rparr>"
    by (simp add: TEAMS_def)
  have bos: "tacticsByTeam boston_fast ''BOS'' = Some (getDefaultTactics\<lparr>pace := 2\<rparr>)"
    and lal: "tacticsByTeam boston_fast ''LAL'' = None"
    by (simp_all add: select_simps)
  note T = selectTeam_resets_schedule_keeps_tactics[OF known, of boston_fast]
  from T have other: "tacticsByTeam (selectTeam ''LAL'' boston_fast) ''BOS''
      = tacticsByTeam boston_fast ''BOS''"
    by simp
  from T known other bos lal show ?thesis by (simp add: empty_views_def)
qed

subsection \<open>C3: the fatigue factor and the tactics payloads\<close>

text \<open>The payload builder does not read its second argument.\<close>
lemma buildTacticsForTeam_ignores_fatigue:
  "buildTacticsForTeam tid f st = buildTacticsForTeam tid f' st"
  by (simp add: buildTacticsForTeam_def)

text \<open>
  Claim C3 at a back-to-back away game of Boston. The fatigue factor of the user's team is
  0.92 and it is handed to \<^verbatim>\<open>buildTacticsForTeam\<close>, but the payload built with 0.92 is
  the payload built with 1.0, and the request sent to the simulator holds the user's
  profile and \<^verbatim>\<open>{ pace: 0 }\<close> for the opponent: neither payload has a fatigue entry.
\<close>
theorem fatigue_factor_not_in_payload:
  "calcFatigueFactor (computeRestDaysForUserTeam (engine_says boston_wins)
      (boston_with back_to_back 1)) = 0.92
   \<and> fst (buildTacticsForTeam ''BOS'' 0.92 (boston_with back_to_back 1))
       = fst (buildTacticsForTeam ''BOS'' 1.0 (boston_with back_to_back 1))
   \<and> snd (snd (simulateGameProgress (engine_says boston_wins) (boston_with back_to_back 1)))
       = [Fetch_advance_league ''2025-10-22'' ''BOS'',
          Fetch_simulate_game
            \<lparr>req_home_team_id = ''NYK'', req_away_team_id = ''BOS'',
             home_tactics = Pace_only 0,
             away_tactics = Full_payload
               \<lparr>p_pace = 0, offense_scheme = ''pace_space'', defense_scheme = ''drop_coverage'',
                scheme_weight_sharpness = 1, scheme_outcome_strength = 1,
                def_scheme_weight_sharpness = 1, def_scheme_outcome_strength = 1,
                rotation_size = 9, lineup_starters = [], lineup_bench = [], p_minutes = []\<rparr>,
             game_date = ''2025-10-22''\<rparr>]"
proof -
  have a: "calcFatigueFactor (computeRestDaysForUserTeam (engine_says boston_wins)
      (boston_with back_to_back 1)) = 0.92"
    by (simp add: computeRestDaysForUserTeam_def calcFatigueFactor_def engine_says_def
        fixed_env_def back_to_back_def involves_def date_simps state_simps)
  have b: "fst (buildTacticsForTeam ''BOS'' 0.92 (boston_with back_to_back 1))
       = fst (buildTacticsForTeam ''BOS'' 1.0 (boston_with back_to_back 1))"
    by (rule arg_cong[where f = fst]) (rule buildTacticsForTeam_ignores_fatigue)
  have c: "snd (snd (simulateGameProgress (engine_says boston_wins) (boston_with back_to_back 1)))
       = [Fetch_advance_league ''2025-10-22'' ''BOS'',
          Fetch_simulate_game
            \<lparr>req_home_team_id = ''NYK'', req_away_team_id = ''BOS'',
             home_tactics = Pace_only 0,
             away_tactics = Full_payload
               \<lparr>p_pace = 0, offense_scheme = ''pace_space'', defense_scheme = ''drop_coverage'',
                scheme_weight_sharpness = 1, scheme_outcome_strength = 1,
                def_scheme_weight_sharpness = 1, def_scheme_outcome_strength = 1,
                rotation_size = 9, lineup_starters = [], lineup_bench = [], p_minutes = []\<rparr>,
             game_date = ''2025-10-22''\<rparr>]"
    by (simp add: sim_simps back_to_back_def boston_wins_def date_simps)
  from a b c show ?thesis by blast
qed

subsection \<open>C4: the caches after an applied game\<close>

text \<open>After every applied game the four markers are null.\<close>
lemma markers_null_after_applied_game:
  assumes "simulateGameProgress e st = (Success x, st', ev)"
  shows "lastLoaded (stats (cachedViews st')) = None
    \<and> lastLoaded (standings (cachedViews st')) = None
    \<and> lastLoaded (teams (cachedViews st')) = None
    \<and> lastLoaded (weeklyNews (cachedViews st')) = None"
  using simulateGameProgress_Success[OF assms] by blast

text \<open>
  When each accessor sends its request: three of them when forced or when the marker is
  falsy (the weekly news only with a credential), the teams accessor when forced or when
  its cached list is empty, whatever the marker is.
\<close>
lemma loadStandingsIfNeeded_fetches:
  "snd (loadStandingsIfNeeded force resp now st) = [Fetch_standings]
     \<longleftrightarrow> force \<or> \<not> truthy (lastLoaded (standings (cachedViews st)))"
  by (auto simp add: loadStandingsIfNeeded_def Let_def split: response.splits)

lemma loadStatsLeadersIfNeeded_fetches:
  "snd (loadStatsLeadersIfNeeded force resp now st) = [Fetch_stats_leaders]
     \<longleftrightarrow> force \<or> \<not> truthy (lastLoaded (stats (cachedViews st)))"
  by (auto simp add: loadStatsLeadersIfNeeded_def Let_def split: response.splits)

lemma loadWeeklyNewsIfNeeded_fetches:
  "snd (loadWeeklyNewsIfNeeded force resp now st) \<noteq> []
     \<longleftrightarrow> truthy (apiKey st) \<and> (force \<or> \<not> truthy (lastLoaded (weeklyNews (cachedViews st))))"
  by (auto simp add: loadWeeklyNewsIfNeeded_def Let_def truthy_def
      split: response.splits option.splits)

lemma loadTeamsListIfNeeded_fetches:
  "snd (loadTeamsListIfNeeded force resp now st) = [Fetch_teams]
     \<longleftrightarrow> force \<or> list_t (teams (cachedViews st)) = []"
  by (auto simp add: loadTeamsListIfNeeded_def Let_def split: response.splits)

lemmas cache_simps = caches_loaded_def loadStandingsIfNeeded_def loadTeamsListIfNeeded_def
  truthy_def

lemma after_first_game_caches:
  "teams (cachedViews after_first_game)
     = \<lparr>lastLoaded = None, list_t = [''BOS 0-0'', ''LAL 0-0''], detailById = []\<rparr>"
  "standings (cachedViews after_first_game)
     = \<lparr>lastLoaded = None, east = [''BOS 0-0''], west = [''LAL 0-0'']\<rparr>"
  by (simp_all add: after_first_game_def cache_simps sim_simps two_open_def boston_wins_def)

text \<open>
  Claim C4 at a state where the teams list and the standings were loaded before Boston's
  first game. After the game both markers are null. The next unforced access to the
  standings sends a request; the next unforced access to the teams list sends none and
  leaves the state, with the list of before the game, as it is.
\<close>
theorem teams_list_not_refetched_after_game:
  "lastLoaded (teams (cachedViews caches_loaded)) = Some ''t0''
   \<and> lastLoaded (teams (cachedViews after_first_game)) = None
   \<and> lastLoaded (standings (cachedViews after_first_game)) = None
   \<and> loadTeamsListIfNeeded False (Ok (Some [''BOS 1-0'', ''LAL 0-1''])) ''t1'' after_first_game
       = (after_first_game, [])
   \<and> list_t (teams (cachedViews after_first_game)) = [''BOS 0-0'', ''LAL 0-0'']
   \<and> snd (loadStandingsIfNeeded False
            (Ok \<lparr>data_east = Some [''BOS 1-0''], data_west = Some [''LAL 0-1'']\<rparr>) ''t1''
            after_first_game) = [Fetch_standings]"
proof -
  have a: "lastLoaded (teams (cachedViews caches_loaded)) = Some ''t0''"
    by (simp add: cache_simps state_simps)
  have b: "loadTeamsListIfNeeded False (Ok (Some [''BOS 1-0'', ''LAL 0-1''])) ''t1'' after_first_game
       = (after_first_game, [])"
    by (simp add: loadTeamsListIfNeeded_def after_first_game_caches)
  have c: "snd (loadStandingsIfNeeded False
            (Ok \<lparr>data_east = Some [''BOS 1-0''], data_west = Some [''LAL 0-1'']\<rparr>) ''t1''
            after_first_game) = [Fetch_standings]"
    by (simp add: loadStandingsIfNeeded_def after_first_game_caches truthy_def)
  from a b c show ?thesis by (simp add: after_first_game_caches)
qed

end
